theory Spec2Isabelle
  imports Main "HOL-Library.AList" "HOL-Library.Product_Lexorder"
begin

section \<open>Values\<close>

text \<open>
  A calendar date is a (year, month, day) triple and a \<^verbatim>\<open>datetime\<close> adds hour, minute and
  second; the lexicographic order on the tuples is the chronological one. The values that
  travel through the wrapper are Python natives. Floats are carried, never computed with,
  so a float is an opaque (mantissa, exponent) pair and \<^verbatim>\<open>np.nan\<close> is a value of its own.
\<close>

type_synonym date = "nat \<times> nat \<times> nat"

type_synonym datetime = "date \<times> nat \<times> nat \<times> nat"

datatype scalar =
    PStr string
  | PInt int
  | PBool bool
  | PFloat int int
  | PDate date
  | PDatetime datetime
  | NaN

section \<open>The vendor's messages\<close>

text \<open>
  An element of a vendor message has a name and is a single value, a sequence of named
  sub-elements, or an array of values. A message is its top-level element and the type of
  the message is the name of that element.
\<close>

datatype Element =
    EValue (name: string) scalar
  | ESeq (name: string) "Element list"
  | EArr (name: string) "Element list"

type_synonym Message = Element

abbreviation messageType :: "Message \<Rightarrow> string" where
  "messageType \<equiv> name"

datatype pyobj = Sc scalar | El Element

datatype error =
    RequestError Element string
  | AttributeError string
  | NotFoundException string
  | IndexOutOfRangeException
  | InvalidConversionException
  | InvalidStateException
  | IndexError
  | ValueError string

text \<open>
  The accessors of the vendor library that the wrapper calls. Only a sequence has named
  sub-elements: \<^verbatim>\<open>hasElement\<close> is false on a value and on an array, and \<^verbatim>\<open>getElement\<close>
  raises there.
\<close>

fun hasElement :: "Element \<Rightarrow> string \<Rightarrow> bool" where
  "hasElement (ESeq _ es) n = (n \<in> set (map name es))"
| "hasElement _ n = False"

fun getElement :: "Element \<Rightarrow> string \<Rightarrow> error + Element" where
  "getElement (ESeq _ es) n =
     (case find (\<lambda>e. name e = n) es of
        None \<Rightarrow> Inl (NotFoundException n)
      | Some e \<Rightarrow> Inr e)"
| "getElement _ n = Inl (NotFoundException n)"

fun numElements :: "Element \<Rightarrow> nat" where
  "numElements (ESeq _ es) = length es"
| "numElements _ = 0"

fun getElementAt :: "Element \<Rightarrow> nat \<Rightarrow> error + Element" where
  "getElementAt (ESeq _ es) i =
     (if i < length es then Inr (es ! i) else Inl IndexOutOfRangeException)"
| "getElementAt _ i = Inl IndexOutOfRangeException"

fun numValues :: "Element \<Rightarrow> nat" where
  "numValues (EArr _ es) = length es"
| "numValues _ = 1"

fun getValueAsElement :: "Element \<Rightarrow> nat \<Rightarrow> error + Element" where
  "getValueAsElement (EArr _ es) i =
     (if i < length es then Inr (es ! i) else Inl IndexOutOfRangeException)"
| "getValueAsElement (ESeq n es) i =
     (if i = 0 then Inr (ESeq n es) else Inl IndexOutOfRangeException)"
| "getValueAsElement (EValue _ _) i = Inl InvalidConversionException"

fun native :: "Element \<Rightarrow> pyobj" where
  "native (EValue _ v) = Sc v"
| "native e = El e"

fun getValue :: "Element \<Rightarrow> error + pyobj" where
  "getValue (EArr _ []) = Inl IndexOutOfRangeException"
| "getValue (EArr _ (e # _)) = Inr (native e)"
| "getValue e = Inr (native e)"

text \<open>
  The typed reads. The response schema types \<^verbatim>\<open>security\<close> as a string and \<^verbatim>\<open>date\<close> as a
  date, which the library hands over as a \<^verbatim>\<open>str\<close> and a \<^verbatim>\<open>datetime.date\<close>; content of
  another type is a conversion error here.
\<close>

definition getElementAsString :: "Element \<Rightarrow> string \<Rightarrow> error + string" where
  "getElementAsString e n =
     (case getElement e n of
        Inl x \<Rightarrow> Inl x
      | Inr (EValue _ (PStr s)) \<Rightarrow> Inr s
      | Inr _ \<Rightarrow> Inl InvalidConversionException)"

definition getElementAsDatetime :: "Element \<Rightarrow> string \<Rightarrow> error + date" where
  "getElementAsDatetime e n =
     (case getElement e n of
        Inl x \<Rightarrow> Inl x
      | Inr (EValue _ (PDate d)) \<Rightarrow> Inr d
      | Inr _ \<Rightarrow> Inl InvalidConversionException)"

datatype EventType = RESPONSE | PARTIAL_RESPONSE | TIMEOUT | SESSION_STATUS | SERVICE_STATUS

record Event =
  eventType :: EventType
  messages :: "Message list"

section \<open>The connection\<close>

record Request =
  operation :: string
  req_securities :: "string list"
  req_fields :: "string list"
  options :: "(string \<times> pyobj) list"

record Session =
  serverHost :: string
  serverPort :: int
  started :: bool
  services :: "string list"
  sent :: "Request list"

record BLPInterface =
  active :: bool
  host :: string
  port :: int
  session :: "Session option"
  refDataService :: "string option"

text \<open>
  The vendor session. Whether the server at a host and port accepts a connection is the
  environment's to say, so it is a parameter \<open>net\<close>. \<^verbatim>\<open>start\<close> and \<^verbatim>\<open>openService\<close> report
  failure by their return value, which the wrapper does not read; \<^verbatim>\<open>getService\<close> raises
  when the service was not opened; a request can be submitted on a started session only.
\<close>

definition newSession :: "string \<Rightarrow> int \<Rightarrow> Session" where
  "newSession h p =
     \<lparr>serverHost = h, serverPort = p, started = False, services = [], sent = []\<rparr>"

definition start :: "(string \<Rightarrow> int \<Rightarrow> bool) \<Rightarrow> Session \<Rightarrow> Session" where
  "start net s = s\<lparr>started := net (serverHost s) (serverPort s)\<rparr>"

definition openService :: "Session \<Rightarrow> string \<Rightarrow> Session" where
  "openService s n = (if started s then s\<lparr>services := services s @ [n]\<rparr> else s)"

definition getService :: "Session \<Rightarrow> string \<Rightarrow> error + string" where
  "getService s n = (if n \<in> set (services s) then Inr n else Inl (NotFoundException n))"

definition stop :: "Session \<Rightarrow> Session" where
  "stop s = s\<lparr>started := False, services := []\<rparr>"

definition init :: "string \<Rightarrow> int \<Rightarrow> BLPInterface" where
  "init h p = \<lparr>active = False, host = h, port = p, session = None, refDataService = None\<rparr>"

definition "open" :: "(string \<Rightarrow> int \<Rightarrow> bool) \<Rightarrow> BLPInterface \<Rightarrow> (error + unit) \<times> BLPInterface" where
  "open net self =
     (if \<not> active self then
        let s = openService (start net (newSession (host self) (port self))) ''//BLP/refdata'';
            self1 = self\<lparr>session := Some s\<rparr>
        in (case getService s ''//BLP/refdata'' of
              Inl e \<Rightarrow> (Inl e, self1)
            | Inr svc \<Rightarrow> (Inr (), self1\<lparr>refDataService := Some svc, active := True\<rparr>))
      else (Inr (), self))"

definition close :: "BLPInterface \<Rightarrow> (error + unit) \<times> BLPInterface" where
  "close self =
     (if active self then
        (case session self of
           None \<Rightarrow> (Inl (AttributeError ''session''), self)
         | Some s \<Rightarrow> (Inr (), self\<lparr>session := Some (stop s), active := False\<rparr>))
      else (Inr (), self))"

definition BLPInterface_init ::
  "(string \<Rightarrow> int \<Rightarrow> bool) \<Rightarrow> string \<Rightarrow> int \<Rightarrow> bool \<Rightarrow> (error + unit) \<times> BLPInterface" where
  "BLPInterface_init net h p opn = (if opn then open net (init h p) else (Inr (), init h p))"

section \<open>Request construction\<close>

text \<open>
  \<^verbatim>\<open>securities\<close> and \<^verbatim>\<open>fields\<close> arrive as a single string or as a collection of strings;
  \<^verbatim>\<open>type(x) == str\<close> tells them apart.
\<close>

datatype arg = Str string | Lst "string list"

fun is_str :: "arg \<Rightarrow> bool" where
  "is_str (Str _) = True"
| "is_str (Lst _) = False"

fun promote :: "arg \<Rightarrow> string list" where
  "promote (Str s) = [s]"
| "promote (Lst xs) = xs"

text \<open>
  \<^verbatim>\<open>strftime('%Y%m%d')\<close>: the year on four digits, the month and the day on two, each
  filled with zeros on the left.
\<close>

definition digit :: "nat \<Rightarrow> char" where
  "digit n = ''0123456789'' ! (n mod 10)"

fun zfill :: "nat \<Rightarrow> nat \<Rightarrow> string" where
  "zfill 0 n = []"
| "zfill (Suc w) n = zfill w (n div 10) @ [digit n]"

fun strftime_Ymd :: "datetime \<Rightarrow> string" where
  "strftime_Ymd ((y, m, d), _) = zfill 4 y @ zfill 2 m @ zfill 2 d"

text \<open>The test \<^verbatim>\<open>type(v) == datetime\<close> and the conversion of the loop over the options.\<close>

fun serialize :: "pyobj \<Rightarrow> pyobj" where
  "serialize (Sc (PDatetime t)) = Sc (PStr (strftime_Ymd t))"
| "serialize v = v"

definition createRequest :: "string \<Rightarrow> Request" where
  "createRequest opn = \<lparr>operation = opn, req_securities = [], req_fields = [], options = []\<rparr>"

definition appendSecurity :: "string \<Rightarrow> Request \<Rightarrow> Request" where
  "appendSecurity s r = r\<lparr>req_securities := req_securities r @ [s]\<rparr>"

definition appendField :: "string \<Rightarrow> Request \<Rightarrow> Request" where
  "appendField f r = r\<lparr>req_fields := req_fields r @ [f]\<rparr>"

definition request_set :: "string \<times> pyobj \<Rightarrow> Request \<Rightarrow> Request" where
  "request_set kv r = r\<lparr>options := AList.update (fst kv) (snd kv) (options r)\<rparr>"

definition buildRequest :: "string \<Rightarrow> arg \<Rightarrow> arg \<Rightarrow> (string \<times> pyobj) list \<Rightarrow> Request" where
  "buildRequest requestType securities flds elements =
     fold (\<lambda>(k, v). request_set (k, serialize v)) elements
       (fold appendField (promote flds)
          (fold appendSecurity (promote securities)
             (createRequest (requestType @ ''Request''))))"

section \<open>Response collection\<close>

text \<open>The three checks made on every polled message, in the order of the source.\<close>

definition raise_with :: "Element \<Rightarrow> string \<Rightarrow> string \<Rightarrow> error + unit" where
  "raise_with e n description =
     (case getElement e n of
        Inl x \<Rightarrow> Inl x
      | Inr payload \<Rightarrow> Inl (RequestError payload description))"

definition nonempty_exceptions :: "Element \<Rightarrow> error + bool" where
  "nonempty_exceptions sd =
     (if hasElement sd ''fieldExceptions'' then
        (case getElement sd ''fieldExceptions'' of
           Inl x \<Rightarrow> Inl x
         | Inr fe \<Rightarrow> Inr (numValues fe > 0))
      else Inr False)"

definition check :: "Message \<Rightarrow> error + unit" where
  "check msg =
     (if hasElement msg ''responseError'' then raise_with msg ''responseError'' ''Response Error''
      else if hasElement msg ''securityData'' then
        (case getElement msg ''securityData'' of
           Inl x \<Rightarrow> Inl x
         | Inr sd \<Rightarrow>
             (case nonempty_exceptions sd of
                Inl x \<Rightarrow> Inl x
              | Inr b \<Rightarrow>
                  if b then raise_with sd ''fieldExceptions'' ''Field Error''
                  else if hasElement sd ''securityError''
                  then raise_with sd ''securityError'' ''Security Error''
                  else Inr ()))
      else Inr ())"

text \<open>The loop over the messages of one event.\<close>

fun scan :: "string \<Rightarrow> Message list \<Rightarrow> Message list \<Rightarrow> error + Message list" where
  "scan requestType [] response = Inr response"
| "scan requestType (msg # msgs) response =
     (case check msg of
        Inl e \<Rightarrow> Inl e
      | Inr _ \<Rightarrow>
          scan requestType msgs
            (if messageType msg = requestType @ ''Response'' then response @ [msg]
             else response))"

text \<open>
  The polling loop. \<open>nextEvent i\<close> is the event that the \<open>i\<close>-th call of
  \<^verbatim>\<open>session.nextEvent(100)\<close> after the submission returns (a timeout is an event without
  messages). The loop has no bound of its own: when no final event ever comes it does
  not return, which is the value \<open>None\<close>.
\<close>

partial_function (option) poll ::
  "string \<Rightarrow> (nat \<Rightarrow> Event) \<Rightarrow> nat \<Rightarrow> Message list \<Rightarrow> (error + Message list) option" where
  "poll requestType nextEvent i response =
     (case scan requestType (messages (nextEvent i)) response of
        Inl e \<Rightarrow> Some (Inl e)
      | Inr response' \<Rightarrow>
          if eventType (nextEvent i) = RESPONSE then Some (Inr response')
          else poll requestType nextEvent (Suc i) response')"

declare poll.simps [code]

text \<open>
  \<^verbatim>\<open>sendRequest\<close>: an instance that was never opened has no \<^verbatim>\<open>refDataService\<close> attribute;
  the request is built, handed to the session, and the answer is polled. The result is
  paired with the state of the instance, which an exception leaves as it is at the raise.
\<close>

definition sendRequest ::
  "BLPInterface \<Rightarrow> string \<Rightarrow> arg \<Rightarrow> arg \<Rightarrow> (string \<times> pyobj) list \<Rightarrow> (nat \<Rightarrow> Event)
     \<Rightarrow> ((error + Message list) \<times> BLPInterface) option" where
  "sendRequest self requestType securities flds elements nextEvent =
     (case refDataService self of
        None \<Rightarrow> Some (Inl (AttributeError ''refDataService''), self)
      | Some svc \<Rightarrow>
          let request = buildRequest requestType securities flds elements
          in (case session self of
                None \<Rightarrow> Some (Inl (AttributeError ''session''), self)
              | Some s \<Rightarrow>
                  if \<not> started s then Some (Inl InvalidStateException, self)
                  else
                    let self' = self\<lparr>session := Some (s\<lparr>sent := sent s @ [request]\<rparr>)\<rparr>
                    in map_option (\<lambda>r. (r, self')) (poll requestType nextEvent 0 [])))"

text \<open>
  Vocabulary for the statements below: the messages of the events \<open>0, \<dots>, n - 1\<close> in arrival
  order, the test for the expected type of message, and the instances on which a request
  can be submitted (opened, with a started session).
\<close>

definition polled :: "(nat \<Rightarrow> Event) \<Rightarrow> nat \<Rightarrow> Message list" where
  "polled nextEvent n = concat (map (\<lambda>k. messages (nextEvent k)) [0..<n])"

definition expected :: "string \<Rightarrow> Message \<Rightarrow> bool" where
  "expected requestType msg = (messageType msg = requestType @ ''Response'')"

definition ready :: "BLPInterface \<Rightarrow> bool" where
  "ready self =
     (refDataService self \<noteq> None \<and> (case session self of None \<Rightarrow> False | Some s \<Rightarrow> started s))"

definition submitted :: "BLPInterface \<Rightarrow> Request \<Rightarrow> BLPInterface" where
  "submitted self request =
     (case session self of
        None \<Rightarrow> self
      | Some s \<Rightarrow> self\<lparr>session := Some (s\<lparr>sent := sent s @ [request]\<rparr>)\<rparr>)"

text \<open>An event stops the polling when it is the final one or one of its messages fails a check.\<close>

definition stops :: "(nat \<Rightarrow> Event) \<Rightarrow> nat \<Rightarrow> bool" where
  "stops ev k = (eventType (ev k) = RESPONSE \<or> (\<exists>m\<in>set (messages (ev k)). check m \<noteq> Inr ()))"

text \<open>An instance opened against a server that accepts the connection, for the examples.\<close>

definition opened :: BLPInterface where
  "opened = snd (open (\<lambda>h p. True) (init ''localhost'' 8194))"

section \<open>Date options\<close>





definition digit_val :: "char \<Rightarrow> nat" where
  "digit_val c = length (takeWhile (\<lambda>x. x \<noteq> c) ''0123456789'')"

definition is_digit :: "char \<Rightarrow> bool" where
  "is_digit c = (c \<in> set ''0123456789'')"



section \<open>Tables\<close>

text \<open>
  A \<^verbatim>\<open>DataFrame\<close>: the row labels, the column labels, the cells row by row (one cell per
  column in every row), and the names of the two axes, one per level. The type of a label
  says whether an axis is flat or a hierarchy: a label of a two-level axis is a pair.
\<close>

record ('r, 'c) DataFrame =
  index :: "'r list"
  columns :: "'c list"
  rows :: "pyobj list list"
  index_names :: "string option list"
  columns_names :: "string option list"

definition DataFrame_new :: "('r, 'c) DataFrame" where
  "DataFrame_new =
     \<lparr>index = [], columns = [], rows = [], index_names = [None], columns_names = [None]\<rparr>"

definition df_empty :: "('r, 'c) DataFrame \<Rightarrow> bool" where
  "df_empty df = (index df = [] \<or> columns df = [])"

definition append_new :: "'a \<Rightarrow> 'a list \<Rightarrow> 'a list" where
  "append_new x xs = (if x \<in> set xs then xs else xs @ [x])"

definition first_pos :: "'a \<Rightarrow> 'a list \<Rightarrow> nat" where
  "first_pos x xs = length (takeWhile (\<lambda>y. y \<noteq> x) xs)"

text \<open>
  \<^verbatim>\<open>df.ix[r, c] = v\<close>, setting with enlargement: a label that the axis does not have is
  appended to it, the new cells are missing values, and the cell at the two labels is set.
\<close>

definition ix_set :: "'r \<Rightarrow> 'c \<Rightarrow> pyobj \<Rightarrow> ('r, 'c) DataFrame \<Rightarrow> ('r, 'c) DataFrame" where
  "ix_set r c v df =
     (let df1 = (if c \<in> set (columns df) then df
                 else df\<lparr>columns := columns df @ [c],
                         rows := map (\<lambda>row. row @ [Sc NaN]) (rows df)\<rparr>);
          df2 = (if r \<in> set (index df1) then df1
                 else df1\<lparr>index := index df1 @ [r],
                          rows := rows df1 @ [replicate (length (columns df1)) (Sc NaN)]\<rparr>);
          i = first_pos r (index df2);
          j = first_pos c (columns df2)
      in df2\<lparr>rows := (rows df2)[i := (rows df2 ! i)[j := v]]\<rparr>)"

definition iloc :: "('r, 'c) DataFrame \<Rightarrow> nat \<Rightarrow> nat \<Rightarrow> error + pyobj" where
  "iloc df i j =
     (if i < length (index df) \<and> j < length (columns df) then Inr (rows df ! i ! j)
      else Inl IndexError)"

definition replace :: "pyobj \<Rightarrow> pyobj \<Rightarrow> ('r, 'c) DataFrame \<Rightarrow> ('r, 'c) DataFrame" where
  "replace old new df = df\<lparr>rows := map (map (\<lambda>v. if v = old then new else v)) (rows df)\<rparr>"

text \<open>
  \<^verbatim>\<open>pd.concat\<close> joins the labels of the other axis on their union. When all fragments
  carry the same labels the union is that list; otherwise it lists every label once, and
  sorted when the labels are ordered, as dates are.
\<close>

definition union_stable :: "'a list list \<Rightarrow> 'a list" where
  "union_stable xss =
     (if \<forall>xs\<in>set xss. xs = hd xss then hd xss else fold append_new (concat xss) [])"

definition union_sorted :: "('a::linorder) list list \<Rightarrow> 'a list" where
  "union_sorted xss =
     (if \<forall>xs\<in>set xss. xs = hd xss then hd xss else sort (remdups (concat xss)))"

definition common_names :: "string option list list \<Rightarrow> string option list" where
  "common_names ns = (if ns \<noteq> [] \<and> (\<forall>n\<in>set ns. n = hd ns) then hd ns else [None])"

text \<open>
  The cells of a fragment laid out on the joined labels: as they are when the fragment
  has exactly these labels, else looked up by label, with a missing value where the
  fragment has no such label.
\<close>

definition reindex_rows :: "'r list \<Rightarrow> ('r, 'c) DataFrame \<Rightarrow> pyobj list list" where
  "reindex_rows ix df =
     (if index df = ix then rows df
      else map (\<lambda>r. if r \<in> set (index df) then rows df ! first_pos r (index df)
                     else replicate (length (columns df)) (Sc NaN)) ix)"

definition reindex_columns :: "'c list \<Rightarrow> ('r, 'c) DataFrame \<Rightarrow> pyobj list list" where
  "reindex_columns cs df =
     (if columns df = cs then rows df
      else map (\<lambda>row. map (\<lambda>c. if c \<in> set (columns df) then row ! first_pos c (columns df)
                                  else Sc NaN) cs) (rows df))"

text \<open>
  \<^verbatim>\<open>pd.concat(data, axis=1)\<close>: the fragments side by side, their columns one after the
  other. A fragment with a repeated row label cannot be laid out on other labels than
  its own.
\<close>

definition concat_axis1 ::
  "('r list list \<Rightarrow> 'r list) \<Rightarrow> ('r, 'c) DataFrame list \<Rightarrow> error + ('r, 'c) DataFrame" where
  "concat_axis1 join data =
     (let ix = join (map index data)
      in if \<exists>df\<in>set data. index df \<noteq> ix \<and> \<not> distinct (index df)
         then Inl (ValueError ''cannot reindex from a duplicate axis'')
         else Inr \<lparr>index = ix,
                   columns = concat (map columns data),
                   rows = map (\<lambda>k. concat (map (\<lambda>df. reindex_rows ix df ! k) data))
                            [0..<length ix],
                   index_names = common_names (map index_names data),
                   columns_names = common_names (map columns_names data)\<rparr>)"

text \<open>
  \<^verbatim>\<open>pd.concat(data, keys=keys, axis=1, names=names)\<close>: the same, and each column label is
  paired with the key of its fragment.
\<close>

definition concat_axis1_keys ::
  "('r list list \<Rightarrow> 'r list) \<Rightarrow> 'k list \<Rightarrow> string option list \<Rightarrow> ('r, 'c) DataFrame list
     \<Rightarrow> error + ('r, 'k \<times> 'c) DataFrame" where
  "concat_axis1_keys join keys names data =
     (let ix = join (map index data)
      in if \<exists>df\<in>set data. index df \<noteq> ix \<and> \<not> distinct (index df)
         then Inl (ValueError ''cannot reindex from a duplicate axis'')
         else Inr \<lparr>index = ix,
                   columns = concat (map (\<lambda>(k, df). map (Pair k) (columns df)) (zip keys data)),
                   rows = map (\<lambda>k. concat (map (\<lambda>df. reindex_rows ix df ! k) data))
                            [0..<length ix],
                   index_names = common_names (map index_names data),
                   columns_names = names\<rparr>)"

text \<open>
  \<^verbatim>\<open>pd.concat(data, keys=keys, axis=0, names=names)\<close>: the fragments one under the other,
  each row label paired with the key of its fragment, on the union of the columns.
\<close>

definition concat_axis0_keys ::
  "('c list list \<Rightarrow> 'c list) \<Rightarrow> 'k list \<Rightarrow> string option list \<Rightarrow> ('r, 'c) DataFrame list
     \<Rightarrow> error + ('k \<times> 'r, 'c) DataFrame" where
  "concat_axis0_keys join keys names data =
     (let cs = join (map columns data)
      in if \<exists>df\<in>set data. columns df \<noteq> cs \<and> \<not> distinct (columns df)
         then Inl (ValueError ''cannot reindex from a duplicate axis'')
         else Inr \<lparr>index = concat (map (\<lambda>(k, df). map (Pair k) (index df)) (zip keys data)),
                   columns = cs,
                   rows = concat (map (reindex_columns cs) data),
                   index_names = names,
                   columns_names = common_names (map columns_names data)\<rparr>)"

text \<open>The two list comprehensions of the source over the parts of an element.\<close>

fun sequence :: "(error + 'a) list \<Rightarrow> error + 'a list" where
  "sequence [] = Inr []"
| "sequence (x # xs) =
     (case x of
        Inl e \<Rightarrow> Inl e
      | Inr v \<Rightarrow> (case sequence xs of Inl e \<Rightarrow> Inl e | Inr vs \<Rightarrow> Inr (v # vs)))"

definition valuesAsElements :: "Element \<Rightarrow> error + Element list" where
  "valuesAsElements e = sequence (map (getValueAsElement e) [0..<numValues e])"

definition elementsOf :: "Element \<Rightarrow> error + Element list" where
  "elementsOf e = sequence (map (getElementAt e) [0..<numElements e])"

section \<open>Reference requests\<close>

datatype reference_result = Scalar pyobj | Table "(string, string) DataFrame"

text \<open>The loops of \<^verbatim>\<open>referenceRequest\<close>, innermost first: fields, securities, messages.\<close>

fun reference_fields ::
  "Element \<Rightarrow> Element list \<Rightarrow> (string, string) DataFrame \<Rightarrow> error + (string, string) DataFrame" where
  "reference_fields sec [] data = Inr data"
| "reference_fields sec (fld # fieldDataList) data =
     (case getValue fld of
        Inl e \<Rightarrow> Inl e
      | Inr v \<Rightarrow>
          (case getElementAsString sec ''security'' of
             Inl e \<Rightarrow> Inl e
           | Inr s \<Rightarrow> reference_fields sec fieldDataList (ix_set s (name fld) v data)))"

fun reference_securities ::
  "Element list \<Rightarrow> (string, string) DataFrame \<Rightarrow> error + (string, string) DataFrame" where
  "reference_securities [] data = Inr data"
| "reference_securities (sec # securityDataList) data =
     (case getElement sec ''fieldData'' of
        Inl e \<Rightarrow> Inl e
      | Inr fieldData \<Rightarrow>
          (case elementsOf fieldData of
             Inl e \<Rightarrow> Inl e
           | Inr fieldDataList \<Rightarrow>
               (case reference_fields sec fieldDataList data of
                  Inl e \<Rightarrow> Inl e
                | Inr data' \<Rightarrow> reference_securities securityDataList data')))"

fun reference_messages ::
  "Message list \<Rightarrow> (string, string) DataFrame \<Rightarrow> error + (string, string) DataFrame" where
  "reference_messages [] data = Inr data"
| "reference_messages (msg # response) data =
     (case getElement msg ''securityData'' of
        Inl e \<Rightarrow> Inl e
      | Inr securityData \<Rightarrow>
          (case valuesAsElements securityData of
             Inl e \<Rightarrow> Inl e
           | Inr securityDataList \<Rightarrow>
               (case reference_securities securityDataList data of
                  Inl e \<Rightarrow> Inl e
                | Inr data' \<Rightarrow> reference_messages response data')))"

definition referenceRequest ::
  "BLPInterface \<Rightarrow> arg \<Rightarrow> arg \<Rightarrow> (string \<times> pyobj) list \<Rightarrow> (nat \<Rightarrow> Event)
     \<Rightarrow> ((error + reference_result) \<times> BLPInterface) option" where
  "referenceRequest self securities flds kwargs nextEvent =
     (case sendRequest self ''ReferenceData'' securities flds kwargs nextEvent of
        None \<Rightarrow> None
      | Some (Inl e, self') \<Rightarrow> Some (Inl e, self')
      | Some (Inr response, self') \<Rightarrow>
          (case reference_messages response DataFrame_new of
             Inl e \<Rightarrow> Some (Inl e, self')
           | Inr data \<Rightarrow>
               if df_empty data then Some (Inr (Table data), self')
               else
                 let data = data\<lparr>index_names := [Some ''Security''],
                                 columns_names := [Some ''Field'']\<rparr>
                 in if is_str securities \<and> is_str flds
                    then (case iloc data 0 0 of
                            Inl e \<Rightarrow> Some (Inl e, self')
                          | Inr v \<Rightarrow> Some (Inr (Scalar v), self'))
                    else Some (Inr (Table data), self')))"

text \<open>
  Vocabulary for the statements about \<^verbatim>\<open>referenceRequest\<close>. A cell is a (security, field,
  value) triple; \<open>response_cells\<close> lists the cells that a response holds, message by
  message, security by security and field by field, and fails where reading the response
  fails. \<open>labels\<close> lists the distinct members of a list in the order of their first
  occurrence, \<open>rect\<close> says that a table has one row of cells per row label and one cell per
  column in every row, and \<open>reported\<close> is the value that a list of cells gives last for a
  security and a field.
\<close>

definition set_cell :: "'r \<times> 'c \<times> pyobj \<Rightarrow> ('r, 'c) DataFrame \<Rightarrow> ('r, 'c) DataFrame" where
  "set_cell c data = ix_set (fst c) (fst (snd c)) (snd (snd c)) data"

definition field_cell :: "Element \<Rightarrow> Element \<Rightarrow> error + string \<times> string \<times> pyobj" where
  "field_cell sec fld =
     (case getValue fld of
        Inl e \<Rightarrow> Inl e
      | Inr v \<Rightarrow>
          (case getElementAsString sec ''security'' of
             Inl e \<Rightarrow> Inl e
           | Inr s \<Rightarrow> Inr (s, name fld, v)))"

definition security_cells :: "Element \<Rightarrow> error + (string \<times> string \<times> pyobj) list" where
  "security_cells sec =
     (case getElement sec ''fieldData'' of
        Inl e \<Rightarrow> Inl e
      | Inr fieldData \<Rightarrow>
          (case elementsOf fieldData of
             Inl e \<Rightarrow> Inl e
           | Inr fieldDataList \<Rightarrow> sequence (map (field_cell sec) fieldDataList)))"

definition message_cells :: "Message \<Rightarrow> error + (string \<times> string \<times> pyobj) list" where
  "message_cells msg =
     (case getElement msg ''securityData'' of
        Inl e \<Rightarrow> Inl e
      | Inr securityData \<Rightarrow>
          (case valuesAsElements securityData of
             Inl e \<Rightarrow> Inl e
           | Inr securityDataList \<Rightarrow>
               (case sequence (map security_cells securityDataList) of
                  Inl e \<Rightarrow> Inl e
                | Inr cs \<Rightarrow> Inr (concat cs))))"

definition response_cells :: "Message list \<Rightarrow> error + (string \<times> string \<times> pyobj) list" where
  "response_cells response =
     (case sequence (map message_cells response) of
        Inl e \<Rightarrow> Inl e
      | Inr cs \<Rightarrow> Inr (concat cs))"

definition labels :: "'a list \<Rightarrow> 'a list" where
  "labels xs = fold append_new xs []"



text \<open>
  The answer of the service to a reference request that names a field it does not know
  for the security: the entry of the security lists the field under \<^verbatim>\<open>fieldExceptions\<close> and
  has no field data.
\<close>

definition unknown_field_response :: "string \<Rightarrow> string \<Rightarrow> Element list \<Rightarrow> Message" where
  "unknown_field_response security field errorInfo =
     ESeq ''ReferenceDataResponse''
       [EArr ''securityData''
          [ESeq ''securityData''
             [EValue ''security'' (PStr security),
              EArr ''eidData'' [],
              EArr ''fieldExceptions''
                [ESeq ''fieldExceptions''
                   [EValue ''fieldId'' (PStr field), ESeq ''errorInfo'' errorInfo]],
              EValue ''sequenceNumber'' (PInt 0),
              ESeq ''fieldData'' []]]]"

section \<open>History requests\<close>

text \<open>The default options of a history request and \<^verbatim>\<open>defaults.update(kwargs)\<close>.\<close>

definition history_defaults :: "pyobj \<Rightarrow> pyobj \<Rightarrow> (string \<times> pyobj) list" where
  "history_defaults startDate endDate =
     [(''startDate'', startDate),
      (''endDate'', endDate),
      (''periodicityAdjustment'', Sc (PStr ''ACTUAL'')),
      (''periodicitySelection'', Sc (PStr ''DAILY'')),
      (''nonTradingDayFillOption'', Sc (PStr ''ACTIVE_DAYS_ONLY'')),
      (''adjustmentNormal'', Sc (PBool False)),
      (''adjustmentAbnormal'', Sc (PBool False)),
      (''adjustmentSplit'', Sc (PBool True)),
      (''adjustmentFollowDPDF'', Sc (PBool False))]"

definition dict_update :: "(string \<times> pyobj) list \<Rightarrow> (string \<times> pyobj) list \<Rightarrow> (string \<times> pyobj) list" where
  "dict_update d other = fold (\<lambda>(k, v). AList.update k v) other d"

definition history_options :: "pyobj \<Rightarrow> pyobj \<Rightarrow> (string \<times> pyobj) list \<Rightarrow> (string \<times> pyobj) list" where
  "history_options startDate endDate kwargs =
     dict_update (history_defaults startDate endDate) kwargs"

datatype historical_result =
    Flat "(datetime, string) DataFrame"
  | Hier "(datetime, string \<times> string) DataFrame"

text \<open>\<^verbatim>\<open>df.index = pd.to_datetime(df.index)\<close>: each date becomes the timestamp of its midnight.\<close>

definition to_datetime :: "(date, 'c) DataFrame \<Rightarrow> (datetime, 'c) DataFrame" where
  "to_datetime df =
     \<lparr>index = map (\<lambda>d. (d, 0, 0, 0)) (index df), columns = columns df, rows = rows df,
      index_names = index_names df, columns_names = columns_names df\<rparr>"

text \<open>
  The loops of \<^verbatim>\<open>historicalRequest\<close>, innermost first: the values of one row of field data
  (its elements other than \<^verbatim>\<open>date\<close>), the rows of field data of one message, the messages.
\<close>

fun history_values ::
  "Element \<Rightarrow> Element list \<Rightarrow> (date, string) DataFrame \<Rightarrow> error + (date, string) DataFrame" where
  "history_values fld [] df = Inr df"
| "history_values fld (v # vs) df =
     (case getValue v of
        Inl e \<Rightarrow> Inl e
      | Inr x \<Rightarrow>
          (case getElementAsDatetime fld ''date'' of
             Inl e \<Rightarrow> Inl e
           | Inr d \<Rightarrow> history_values fld vs (ix_set d (name v) x df)))"

fun history_fields ::
  "Element list \<Rightarrow> (date, string) DataFrame \<Rightarrow> error + (date, string) DataFrame" where
  "history_fields [] df = Inr df"
| "history_fields (fld # fieldDataList) df =
     (case elementsOf fld of
        Inl e \<Rightarrow> Inl e
      | Inr es \<Rightarrow>
          (case history_values fld (filter (\<lambda>e. name e \<noteq> ''date'') es) df of
             Inl e \<Rightarrow> Inl e
           | Inr df' \<Rightarrow> history_fields fieldDataList df'))"

fun history_messages ::
  "Message list \<Rightarrow> string list \<Rightarrow> (datetime, string) DataFrame list
     \<Rightarrow> error + string list \<times> (datetime, string) DataFrame list" where
  "history_messages [] keys data = Inr (keys, data)"
| "history_messages (msg # response) keys data =
     (case getElement msg ''securityData'' of
        Inl e \<Rightarrow> Inl e
      | Inr securityData \<Rightarrow>
          (case getElement securityData ''fieldData'' of
             Inl e \<Rightarrow> Inl e
           | Inr fieldData \<Rightarrow>
               (case valuesAsElements fieldData of
                  Inl e \<Rightarrow> Inl e
                | Inr fieldDataList \<Rightarrow>
                    (case history_fields fieldDataList DataFrame_new of
                       Inl e \<Rightarrow> Inl e
                     | Inr df \<Rightarrow>
                         (case getElementAsString securityData ''security'' of
                            Inl e \<Rightarrow> Inl e
                          | Inr key \<Rightarrow>
                              history_messages response (keys @ [key])
                                (data @ [replace (Sc (PStr ''#N/A History'')) (Sc NaN)
                                           (to_datetime df)]))))))"

definition historicalRequest ::
  "BLPInterface \<Rightarrow> arg \<Rightarrow> arg \<Rightarrow> pyobj \<Rightarrow> pyobj \<Rightarrow> (string \<times> pyobj) list \<Rightarrow> (nat \<Rightarrow> Event)
     \<Rightarrow> ((error + historical_result) \<times> BLPInterface) option" where
  "historicalRequest self securities flds startDate endDate kwargs nextEvent =
     (case sendRequest self ''HistoricalData'' securities flds
             (history_options startDate endDate kwargs) nextEvent of
        None \<Rightarrow> None
      | Some (Inl e, self') \<Rightarrow> Some (Inl e, self')
      | Some (Inr response, self') \<Rightarrow>
          (case history_messages response [] [] of
             Inl e \<Rightarrow> Some (Inl e, self')
           | Inr (keys, data) \<Rightarrow>
               if length data = 0 then Some (Inr (Flat DataFrame_new), self')
               else if is_str securities then
                 (case concat_axis1 union_sorted data of
                    Inl e \<Rightarrow> Some (Inl e, self')
                  | Inr df \<Rightarrow>
                      Some (Inr (Flat (df\<lparr>columns_names := [Some ''Field''],
                                         index_names := [Some ''Date'']\<rparr>)), self'))
               else
                 (case concat_axis1_keys union_sorted keys [Some ''Security'', Some ''Field''] data of
                    Inl e \<Rightarrow> Some (Inl e, self')
                  | Inr df \<Rightarrow> Some (Inr (Hier (df\<lparr>index_names := [Some ''Date'']\<rparr>)), self'))))"

text \<open>
  Vocabulary for the statements about \<^verbatim>\<open>historicalRequest\<close>: the cells (date, field, value)
  that a message holds, row by row and value by value, the security that a message is
  about, and the fragment that the wrapper makes of the cells of one message.
\<close>

definition value_cell :: "Element \<Rightarrow> Element \<Rightarrow> error + date \<times> string \<times> pyobj" where
  "value_cell fld v =
     (case getValue v of
        Inl e \<Rightarrow> Inl e
      | Inr x \<Rightarrow>
          (case getElementAsDatetime fld ''date'' of
             Inl e \<Rightarrow> Inl e
           | Inr d \<Rightarrow> Inr (d, name v, x)))"

definition row_cells :: "Element \<Rightarrow> error + (date \<times> string \<times> pyobj) list" where
  "row_cells fld =
     (case elementsOf fld of
        Inl e \<Rightarrow> Inl e
      | Inr es \<Rightarrow> sequence (map (value_cell fld) (filter (\<lambda>e. name e \<noteq> ''date'') es)))"

definition history_cells :: "Message \<Rightarrow> error + (date \<times> string \<times> pyobj) list" where
  "history_cells msg =
     (case getElement msg ''securityData'' of
        Inl e \<Rightarrow> Inl e
      | Inr securityData \<Rightarrow>
          (case getElement securityData ''fieldData'' of
             Inl e \<Rightarrow> Inl e
           | Inr fieldData \<Rightarrow>
               (case valuesAsElements fieldData of
                  Inl e \<Rightarrow> Inl e
                | Inr fieldDataList \<Rightarrow>
                    (case sequence (map row_cells fieldDataList) of
                       Inl e \<Rightarrow> Inl e
                     | Inr cs \<Rightarrow> Inr (concat cs)))))"

definition history_key :: "Message \<Rightarrow> error + string" where
  "history_key msg =
     (case getElement msg ''securityData'' of
        Inl e \<Rightarrow> Inl e
      | Inr securityData \<Rightarrow> getElementAsString securityData ''security'')"

definition fragment_of :: "(date \<times> string \<times> pyobj) list \<Rightarrow> (datetime, string) DataFrame" where
  "fragment_of cells =
     replace (Sc (PStr ''#N/A History'')) (Sc NaN) (to_datetime (fold set_cell cells DataFrame_new))"

section \<open>Bulk requests\<close>

datatype bulk_result =
    Wide "(pyobj, string) DataFrame"
  | Stacked "(string \<times> pyobj, string) DataFrame"

text \<open>
  A \<^verbatim>\<open>Series\<close> built by \<^verbatim>\<open>s[key] = value\<close> is a list of keyed values.
  \<^verbatim>\<open>df.append(s, ignore_index=True)\<close> adds the series as a row: the keys that the frame
  does not have become new columns, missing in the rows above, and the rows are numbered
  anew from 0.
\<close>

definition append_row :: "(string \<times> pyobj) list \<Rightarrow> (nat, string) DataFrame \<Rightarrow> (nat, string) DataFrame" where
  "append_row s df =
     (let new = filter (\<lambda>k. k \<notin> set (columns df)) (map fst s);
          cs = columns df @ new
      in \<lparr>index = [0..<Suc (length (index df))],
          columns = cs,
          rows = map (\<lambda>row. row @ replicate (length new) (Sc NaN)) (rows df) @
                 [map (\<lambda>c. case map_of s c of None \<Rightarrow> Sc NaN | Some v \<Rightarrow> v) cs],
          index_names = [None],
          columns_names = columns_names df\<rparr>)"

text \<open>
  \<^verbatim>\<open>df.set_index(c)\<close>: the values of column \<open>c\<close> become the row labels, named after the
  column, and the column leaves the table.
\<close>

definition set_index :: "string \<Rightarrow> (nat, string) DataFrame \<Rightarrow> (pyobj, string) DataFrame" where
  "set_index c df =
     (let j = first_pos c (columns df)
      in \<lparr>index = map (\<lambda>row. row ! j) (rows df),
          columns = take j (columns df) @ drop (Suc j) (columns df),
          rows = map (\<lambda>row. take j row @ drop (Suc j) row) (rows df),
          index_names = [Some c],
          columns_names = columns_names df\<rparr>)"

text \<open>
  The loops of \<^verbatim>\<open>bulkRequest\<close>, innermost first: the elements of one row of a bulk field,
  the rows of one field, the fields of one security, the securities of one message, the
  messages.
\<close>

fun bulk_series :: "Element list \<Rightarrow> (string \<times> pyobj) list \<Rightarrow> error + (string \<times> pyobj) list" where
  "bulk_series [] s = Inr s"
| "bulk_series (d # ds) s =
     (case getValue d of
        Inl e \<Rightarrow> Inl e
      | Inr x \<Rightarrow> bulk_series ds (AList.update (name d) x s))"

fun bulk_rows :: "Element list \<Rightarrow> (nat, string) DataFrame \<Rightarrow> error + (nat, string) DataFrame" where
  "bulk_rows [] df = Inr df"
| "bulk_rows (v # vs) df =
     (case elementsOf v of
        Inl e \<Rightarrow> Inl e
      | Inr ds \<Rightarrow>
          (case bulk_series ds [] of
             Inl e \<Rightarrow> Inl e
           | Inr s \<Rightarrow> bulk_rows vs (append_row s df)))"

fun bulk_fields :: "Element list \<Rightarrow> (nat, string) DataFrame \<Rightarrow> error + (nat, string) DataFrame" where
  "bulk_fields [] df = Inr df"
| "bulk_fields (fld # fieldDataList) df =
     (case valuesAsElements fld of
        Inl e \<Rightarrow> Inl e
      | Inr vs \<Rightarrow>
          (case bulk_rows vs df of
             Inl e \<Rightarrow> Inl e
           | Inr df' \<Rightarrow> bulk_fields fieldDataList df'))"

fun bulk_securities ::
  "Element list \<Rightarrow> string list \<Rightarrow> (pyobj, string) DataFrame list
     \<Rightarrow> error + string list \<times> (pyobj, string) DataFrame list" where
  "bulk_securities [] keys data = Inr (keys, data)"
| "bulk_securities (sec # securityDataList) keys data =
     (case getElement sec ''fieldData'' of
        Inl e \<Rightarrow> Inl e
      | Inr fieldData \<Rightarrow>
          (case elementsOf fieldData of
             Inl e \<Rightarrow> Inl e
           | Inr fieldDataList \<Rightarrow>
               (case bulk_fields fieldDataList DataFrame_new of
                  Inl e \<Rightarrow> Inl e
                | Inr df \<Rightarrow>
                    if \<not> df_empty df then
                      (case getElementAsString sec ''security'' of
                         Inl e \<Rightarrow> Inl e
                       | Inr key \<Rightarrow>
                           (case columns df of
                              [] \<Rightarrow> Inl IndexError
                            | c # _ \<Rightarrow>
                                bulk_securities securityDataList (keys @ [key])
                                  (data @ [set_index c df])))
                    else bulk_securities securityDataList keys data)))"

fun bulk_messages ::
  "Message list \<Rightarrow> string list \<Rightarrow> (pyobj, string) DataFrame list
     \<Rightarrow> error + string list \<times> (pyobj, string) DataFrame list" where
  "bulk_messages [] keys data = Inr (keys, data)"
| "bulk_messages (msg # response) keys data =
     (case getElement msg ''securityData'' of
        Inl e \<Rightarrow> Inl e
      | Inr securityData \<Rightarrow>
          (case valuesAsElements securityData of
             Inl e \<Rightarrow> Inl e
           | Inr securityDataList \<Rightarrow>
               (case bulk_securities securityDataList keys data of
                  Inl e \<Rightarrow> Inl e
                | Inr (keys', data') \<Rightarrow> bulk_messages response keys' data')))"

definition bulkRequest ::
  "BLPInterface \<Rightarrow> arg \<Rightarrow> arg \<Rightarrow> (string \<times> pyobj) list \<Rightarrow> (nat \<Rightarrow> Event)
     \<Rightarrow> ((error + bulk_result) \<times> BLPInterface) option" where
  "bulkRequest self securities flds kwargs nextEvent =
     (case sendRequest self ''ReferenceData'' securities flds kwargs nextEvent of
        None \<Rightarrow> None
      | Some (Inl e, self') \<Rightarrow> Some (Inl e, self')
      | Some (Inr response, self') \<Rightarrow>
          (case bulk_messages response [] [] of
             Inl e \<Rightarrow> Some (Inl e, self')
           | Inr (keys, data) \<Rightarrow>
               if length data = 0 then Some (Inr (Wide DataFrame_new), self')
               else if is_str securities then
                 (case concat_axis1 union_stable data of
                    Inl e \<Rightarrow> Some (Inl e, self')
                  | Inr df \<Rightarrow> Some (Inr (Wide (df\<lparr>columns_names := [Some ''Field'']\<rparr>)), self'))
               else
                 (case concat_axis0_keys union_stable keys
                         (Some ''Security'' # index_names (hd data)) data of
                    Inl e \<Rightarrow> Some (Inl e, self')
                  | Inr df \<Rightarrow> Some (Inr (Stacked df), self'))))"

text \<open>
  Vocabulary for the statements about \<^verbatim>\<open>bulkRequest\<close>: the record (series) of one bulk row,
  the records of one field and of one security entry, the table assembled from records,
  the fragment made for a security entry (none when the assembled table is empty), the
  security entries of a response in order, and the fragments that were made.
\<close>

definition bulk_record :: "Element \<Rightarrow> error + (string \<times> pyobj) list" where
  "bulk_record v =
     (case elementsOf v of
        Inl e \<Rightarrow> Inl e
      | Inr ds \<Rightarrow> bulk_series ds [])"

definition field_records :: "Element \<Rightarrow> error + (string \<times> pyobj) list list" where
  "field_records fld =
     (case valuesAsElements fld of
        Inl e \<Rightarrow> Inl e
      | Inr vs \<Rightarrow> sequence (map bulk_record vs))"

definition security_records :: "Element \<Rightarrow> error + (string \<times> pyobj) list list" where
  "security_records sec =
     (case getElement sec ''fieldData'' of
        Inl e \<Rightarrow> Inl e
      | Inr fieldData \<Rightarrow>
          (case elementsOf fieldData of
             Inl e \<Rightarrow> Inl e
           | Inr fieldDataList \<Rightarrow>
               (case sequence (map field_records fieldDataList) of
                  Inl e \<Rightarrow> Inl e
                | Inr rss \<Rightarrow> Inr (concat rss))))"

definition frame_of :: "(string \<times> pyobj) list list \<Rightarrow> (nat, string) DataFrame" where
  "frame_of records = fold append_row records DataFrame_new"

definition bulk_fragment :: "Element \<Rightarrow> error + (string \<times> (pyobj, string) DataFrame) option" where
  "bulk_fragment sec =
     (case security_records sec of
        Inl e \<Rightarrow> Inl e
      | Inr records \<Rightarrow>
          if df_empty (frame_of records) then Inr None
          else
            (case getElementAsString sec ''security'' of
               Inl e \<Rightarrow> Inl e
             | Inr key \<Rightarrow>
                 Inr (Some (key, set_index (hd (columns (frame_of records))) (frame_of records)))))"

definition message_entries :: "Message \<Rightarrow> error + Element list" where
  "message_entries msg =
     (case getElement msg ''securityData'' of
        Inl e \<Rightarrow> Inl e
      | Inr securityData \<Rightarrow> valuesAsElements securityData)"

definition response_entries :: "Message list \<Rightarrow> error + Element list" where
  "response_entries response =
     (case sequence (map message_entries response) of
        Inl e \<Rightarrow> Inl e
      | Inr ess \<Rightarrow> Inr (concat ess))"

fun kept :: "'a option list \<Rightarrow> 'a list" where
  "kept [] = []"
| "kept (None # os) = kept os"
| "kept (Some x # os) = x # kept os"

section \<open>Connection lifecycle\<close>

lemma open_active_noop: "active self \<Longrightarrow> open net self = (Inr (), self)"
  by (simp add: open_def)

lemma close_inactive_noop: "\<not> active self \<Longrightarrow> close self = (Inr (), self)"
  by (simp add: close_def)

lemma open_returns_active: "open net self = (Inr u, self') \<Longrightarrow> active self'"
  by (auto simp: open_def Let_def split: if_splits sum.splits)

lemma close_returns_inactive: "close self = (Inr u, self') \<Longrightarrow> \<not> active self'"
  by (auto simp: close_def split: if_splits option.splits)

text \<open>
  C9. \<^verbatim>\<open>open()\<close> and \<^verbatim>\<open>close()\<close> are idempotent: \<^verbatim>\<open>open()\<close> on an active connection and
  \<^verbatim>\<open>close()\<close> on an inactive one return with the state as it was (no session is created,
  started or stopped); whenever \<^verbatim>\<open>open()\<close> returns the active flag is true and whenever
  \<^verbatim>\<open>close()\<close> returns it is false; so a second \<^verbatim>\<open>open()\<close> after one that returned, and a
  second \<^verbatim>\<open>close()\<close> after one that returned, change nothing.
\<close>

theorem open_close_idempotent:
  "(active self \<longrightarrow> open net self = (Inr (), self)) \<and>
   (\<not> active self \<longrightarrow> close self = (Inr (), self)) \<and>
   (\<forall>self'. open net self = (Inr (), self') \<longrightarrow>
      active self' \<and> open net' self' = (Inr (), self')) \<and>
   (\<forall>self'. close self = (Inr (), self') \<longrightarrow>
      \<not> active self' \<and> close self' = (Inr (), self'))"
  using open_active_noop open_returns_active close_inactive_noop close_returns_inactive
  by blast

theorem open_close_idempotent_witness:
  "open (\<lambda>h p. True) (init ''localhost'' 8194) =
     (Inr (),
      \<lparr>active = True, host = ''localhost'', port = 8194,
       session = Some \<lparr>serverHost = ''localhost'', serverPort = 8194, started = True,
                       services = [''//BLP/refdata''], sent = []\<rparr>,
       refDataService = Some ''//BLP/refdata''\<rparr>) \<and>
   open (\<lambda>h p. False) (snd (open (\<lambda>h p. True) (init ''localhost'' 8194))) =
     (Inr (), snd (open (\<lambda>h p. True) (init ''localhost'' 8194))) \<and>
   close (init ''localhost'' 8194) = (Inr (), init ''localhost'' 8194) \<and>
   \<not> active (snd (close (snd (open (\<lambda>h p. True) (init ''localhost'' 8194)))))"
proof -
  let ?s0 = "init ''localhost'' 8194"
  let ?s1 = "snd (open (\<lambda>h p. True) ?s0)"
  have o: "open (\<lambda>h p. True) ?s0 = (Inr (), ?s1)"
    by (simp add: open_def init_def Let_def getService_def openService_def start_def
        newSession_def)
  have c: "close ?s1 = (Inr (), snd (close ?s1))"
    by (simp add: close_def open_def init_def Let_def getService_def openService_def start_def
        newSession_def)
  have n: "\<not> active ?s0"
    by (simp add: init_def)
  from open_close_idempotent [of ?s0 "\<lambda>h p. True" "\<lambda>h p. False"] o n
  have 1: "active ?s1 \<and> open (\<lambda>h p. False) ?s1 = (Inr (), ?s1)"
    and 2: "close ?s0 = (Inr (), ?s0)"
    by blast+
  from open_close_idempotent [of ?s1 "\<lambda>h p. True" "\<lambda>h p. True"] c
  have 3: "\<not> active (snd (close ?s1))"
    by blast
  have 4: "?s1 = \<lparr>active = True, host = ''localhost'', port = 8194,
       session = Some \<lparr>serverHost = ''localhost'', serverPort = 8194, started = True,
                       services = [''//BLP/refdata''], sent = []\<rparr>,
       refDataService = Some ''//BLP/refdata''\<rparr>"
    by (simp add: open_def init_def Let_def getService_def openService_def start_def
        newSession_def)
  from o 1 2 3 4 show ?thesis by simp
qed

section \<open>Polling\<close>

lemma scan_pass:
  "\<forall>m\<in>set ms. check m = Inr () \<Longrightarrow>
     scan rt ms acc = Inr (acc @ filter (expected rt) ms)"
  by (induction ms arbitrary: acc) (auto simp: expected_def)


lemma scan_Inr:
  "scan rt ms acc = Inr r \<Longrightarrow> \<forall>m\<in>set ms. check m = Inr ()"
  by (induction ms arbitrary: acc) (auto split: sum.splits)

lemma polled_Suc: "polled ev (Suc n) = polled ev n @ messages (ev n)"
  by (simp add: polled_def)

lemma poll_skip:
  "\<forall>k<n. eventType (ev k) \<noteq> RESPONSE \<Longrightarrow> \<forall>m\<in>set (polled ev n). check m = Inr () \<Longrightarrow>
     poll rt ev 0 [] = poll rt ev n (filter (expected rt) (polled ev n))"
proof (induction n)
  case 0
  then show ?case by (simp add: polled_def)
next
  case (Suc n)
  then have ih: "poll rt ev 0 [] = poll rt ev n (filter (expected rt) (polled ev n))"
    by (simp add: polled_Suc)
  have ok: "\<forall>m\<in>set (messages (ev n)). check m = Inr ()"
    using Suc.prems(2) by (simp add: polled_Suc)
  have nr: "eventType (ev n) \<noteq> RESPONSE"
    using Suc.prems(1) by simp
  show ?case
    by (subst ih, subst poll.simps) (simp add: scan_pass [OF ok] nr polled_Suc)
qed

lemma poll_stops:
  assumes a: "poll rt ev i acc = Some r"
  shows "\<exists>n. stops ev (i + n)"
proof (rule poll.raw_induct [OF _ a, where P = "\<lambda>rt ev i acc r. \<exists>n. stops ev (i + n)"])
  fix poll' rt ev i acc r
  assume IH: "\<And>rt ev i acc r. poll' rt ev i acc = Some r \<Longrightarrow> \<exists>n. stops ev (i + n)"
    and st: "(case scan rt (messages (ev i)) acc of
        Inl e \<Rightarrow> Some (Inl e)
      | Inr response' \<Rightarrow>
          if eventType (ev i) = RESPONSE then Some (Inr response')
          else poll' rt ev (Suc i) response') = Some r"
  show "\<exists>n. stops ev (i + n)"
  proof (cases "stops ev i")
    case True
    then show ?thesis by (intro exI [of _ 0]) simp
  next
    case False
    then have ok: "\<forall>m\<in>set (messages (ev i)). check m = Inr ()" and nr: "eventType (ev i) \<noteq> RESPONSE"
      by (auto simp: stops_def)
    from st have "poll' rt ev (Suc i) (acc @ filter (expected rt) (messages (ev i))) = Some r"
      by (simp add: scan_pass [OF ok] nr)
    from IH [OF this] obtain n where "stops ev (Suc i + n)" by blast
    then show ?thesis by (intro exI [of _ "Suc n"]) simp
  qed
qed

lemma poll_at:
  assumes "\<forall>k<n. \<not> stops ev k"
  shows "poll rt ev 0 [] =
     (case scan rt (messages (ev n)) (filter (expected rt) (polled ev n)) of
        Inl e \<Rightarrow> Some (Inl e)
      | Inr response' \<Rightarrow>
          if eventType (ev n) = RESPONSE then Some (Inr response')
          else poll rt ev (Suc n) response')"
proof -
  have nr: "\<forall>k<n. eventType (ev k) \<noteq> RESPONSE"
    using assms by (simp add: stops_def)
  have ok: "\<forall>m\<in>set (polled ev n). check m = Inr ()"
    using assms by (auto simp: stops_def polled_def)
  show ?thesis
    by (subst poll_skip [OF nr ok], subst poll.simps) (rule refl)
qed

lemma first_stop:
  assumes "poll rt ev 0 [] = Some r"
  obtains n where "stops ev n" and "\<forall>k<n. \<not> stops ev k"
proof -
  from poll_stops [OF assms] have "\<exists>n. stops ev n" by simp
  then have "\<exists>n. stops ev n \<and> (\<forall>k<n. \<not> stops ev k)"
    by (subst (asm) exists_least_iff) simp
  then show thesis using that by blast
qed

lemma polled_ok_iff:
  "(\<forall>m\<in>set (polled ev n). check m = Inr ()) \<longleftrightarrow>
   (\<forall>k<n. \<forall>m\<in>set (messages (ev k)). check m = Inr ())"
  by (auto simp: polled_def)

lemma poll_Inr_iff:
  "poll rt ev 0 [] = Some (Inr resp) \<longleftrightarrow>
   (\<exists>n. eventType (ev n) = RESPONSE \<and> (\<forall>k<n. eventType (ev k) \<noteq> RESPONSE) \<and>
        (\<forall>m\<in>set (polled ev (Suc n)). check m = Inr ()) \<and>
        resp = filter (expected rt) (polled ev (Suc n)))"
  (is "?L \<longleftrightarrow> ?R")
proof
  assume ?L
  then obtain n where st: "stops ev n" and ns: "\<forall>k<n. \<not> stops ev k"
    by (rule first_stop)
  have ok: "\<forall>m\<in>set (messages (ev n)). check m = Inr ()"
  proof (rule ccontr)
    assume "\<not> ?thesis"
    then obtain e where "scan rt (messages (ev n)) (filter (expected rt) (polled ev n)) = Inl e"
      using scan_Inr [of rt "messages (ev n)" "filter (expected rt) (polled ev n)"]
      by (cases "scan rt (messages (ev n)) (filter (expected rt) (polled ev n))") auto
    with \<open>?L\<close> poll_at [OF ns, of rt] show False by simp
  qed
  with st have r: "eventType (ev n) = RESPONSE"
    by (auto simp: stops_def)
  from \<open>?L\<close> poll_at [OF ns, of rt] have "resp = filter (expected rt) (polled ev (Suc n))"
    by (simp add: scan_pass [OF ok] r polled_Suc)
  moreover have "\<forall>m\<in>set (polled ev (Suc n)). check m = Inr ()"
    unfolding polled_ok_iff using ok ns by (auto simp: stops_def less_Suc_eq)
  moreover have "\<forall>k<n. eventType (ev k) \<noteq> RESPONSE"
    using ns by (simp add: stops_def)
  ultimately show ?R using r by blast
next
  assume ?R
  then obtain n where r: "eventType (ev n) = RESPONSE"
    and nr: "\<forall>k<n. eventType (ev k) \<noteq> RESPONSE"
    and ok: "\<forall>m\<in>set (polled ev (Suc n)). check m = Inr ()"
    and resp: "resp = filter (expected rt) (polled ev (Suc n))"
    by blast
  from ok have ok1: "\<forall>m\<in>set (polled ev n). check m = Inr ()"
    and ok2: "\<forall>m\<in>set (messages (ev n)). check m = Inr ()"
    by (simp_all add: polled_Suc)
  show ?L
    by (subst poll_skip [OF nr ok1], subst poll.simps)
       (simp add: scan_pass [OF ok2] r resp polled_Suc)
qed


lemma sendRequest_ready:
  "ready self \<Longrightarrow>
     sendRequest self rt secs flds els ev =
       map_option (\<lambda>r. (r, submitted self (buildRequest rt secs flds els))) (poll rt ev 0 [])"
  by (auto simp: ready_def sendRequest_def submitted_def Let_def split: option.splits)

lemma sendRequest_not_ready:
  "\<not> ready self \<Longrightarrow> \<exists>e. sendRequest self rt secs flds els ev = Some (Inl e, self) \<and>
      (\<forall>v d. e \<noteq> RequestError v d)"
  by (auto simp: ready_def sendRequest_def submitted_def Let_def split: option.splits)


lemma raise_with_has:
  "hasElement e n \<Longrightarrow> getElement e n = Inr x \<Longrightarrow> raise_with e n d = Inl (RequestError x d)"
  by (simp add: raise_with_def)






section \<open>What \<^verbatim>\<open>sendRequest\<close> returns and raises\<close>

lemma ready_opened: "ready opened"
  by (simp add: opened_def ready_def open_def init_def Let_def getService_def openService_def
      start_def newSession_def)

text \<open>
  C6. When \<^verbatim>\<open>sendRequest\<close> returns a response, some event \<open>n\<close> is the first final
  (\<^verbatim>\<open>RESPONSE\<close>) event of the stream, and the response holds exactly the messages of the
  events \<open>0, \<dots>, n\<close> whose type is \<^verbatim>\<open>requestType + 'Response'\<close>, in arrival order: the
  messages of any other type are dropped. Conversely, on an instance that can submit, when
  event \<open>n\<close> is the first final event and no message up to it fails a check, the call does
  return, with that list.
\<close>

theorem sendRequest_collects:
  "(sendRequest self requestType securities flds elements nextEvent = Some (Inr response, self') \<longrightarrow>
      (\<exists>n. eventType (nextEvent n) = RESPONSE \<and> (\<forall>k<n. eventType (nextEvent k) \<noteq> RESPONSE) \<and>
           response = filter (expected requestType) (polled nextEvent (Suc n)))) \<and>
   (ready self \<and> eventType (nextEvent n) = RESPONSE \<and>
    (\<forall>k<n. eventType (nextEvent k) \<noteq> RESPONSE) \<and>
    (\<forall>m\<in>set (polled nextEvent (Suc n)). check m = Inr ()) \<longrightarrow>
      sendRequest self requestType securities flds elements nextEvent =
        Some (Inr (filter (expected requestType) (polled nextEvent (Suc n))),
              submitted self (buildRequest requestType securities flds elements)))"
proof (intro conjI impI)
  assume a: "sendRequest self requestType securities flds elements nextEvent = Some (Inr response, self')"
  have "ready self"
    using a sendRequest_not_ready [of self requestType securities flds elements nextEvent]
    by (cases "ready self") auto
  with a have "poll requestType nextEvent 0 [] = Some (Inr response)"
    by (auto simp: sendRequest_ready)
  then show "\<exists>n. eventType (nextEvent n) = RESPONSE \<and> (\<forall>k<n. eventType (nextEvent k) \<noteq> RESPONSE) \<and>
           response = filter (expected requestType) (polled nextEvent (Suc n))"
    unfolding poll_Inr_iff by blast
next
  assume b: "ready self \<and> eventType (nextEvent n) = RESPONSE \<and>
    (\<forall>k<n. eventType (nextEvent k) \<noteq> RESPONSE) \<and>
    (\<forall>m\<in>set (polled nextEvent (Suc n)). check m = Inr ())"
  then have "poll requestType nextEvent 0 [] =
      Some (Inr (filter (expected requestType) (polled nextEvent (Suc n))))"
    unfolding poll_Inr_iff by blast
  with b show "sendRequest self requestType securities flds elements nextEvent =
        Some (Inr (filter (expected requestType) (polled nextEvent (Suc n))),
              submitted self (buildRequest requestType securities flds elements))"
    by (simp add: sendRequest_ready)
qed

text \<open>
  A partial response with an expected and an unrelated message, a timeout, and the final
  event: both expected messages are returned, in order.
\<close>

theorem sendRequest_collects_witness:
  "sendRequest opened ''ReferenceData'' (Str ''IBM US Equity'') (Str ''PX_LAST'') []
     (\<lambda>i. if i = 0 then
             \<lparr>eventType = PARTIAL_RESPONSE,
              messages = [ESeq ''ReferenceDataResponse'' [EArr ''securityData'' []],
                          ESeq ''Heartbeat'' []]\<rparr>
           else if i = 1 then \<lparr>eventType = TIMEOUT, messages = []\<rparr>
           else \<lparr>eventType = RESPONSE,
                 messages = [ESeq ''ReferenceDataResponse'' [EValue ''n'' (PInt 2)]]\<rparr>) =
   Some (Inr [ESeq ''ReferenceDataResponse'' [EArr ''securityData'' []],
              ESeq ''ReferenceDataResponse'' [EValue ''n'' (PInt 2)]],
         submitted opened
           (buildRequest ''ReferenceData'' (Str ''IBM US Equity'') (Str ''PX_LAST'') []))"
  using sendRequest_collects [of opened "''ReferenceData''" "Str ''IBM US Equity''"
      "Str ''PX_LAST''" "[]" _ "[]" opened "Suc (Suc 0)"] ready_opened
  by (simp add: polled_def expected_def check_def nonempty_exceptions_def less_Suc_eq)




text \<open>
  C10. When \<^verbatim>\<open>sendRequest\<close> raises a \<^verbatim>\<open>RequestError\<close>, of whatever description, the
  connection is as it was: the active flag, host, port and service handle are unchanged,
  the session is the same started session (only the submitted request was added to what
  it has sent), and a further \<^verbatim>\<open>sendRequest\<close> on the instance goes straight to submitting
  and polling, without reopening.
\<close>

theorem request_error_keeps_connection:
  assumes "sendRequest self requestType securities flds elements nextEvent =
             Some (Inl (RequestError payload description), self')"
  shows "active self' = active self \<and> host self' = host self \<and> port self' = port self \<and>
         refDataService self' = refDataService self \<and>
         (\<exists>s. session self = Some s \<and> started s \<and>
              session self' =
                Some (s\<lparr>sent := sent s @ [buildRequest requestType securities flds elements]\<rparr>)) \<and>
         ready self' \<and>
         (\<forall>requestType' securities' flds' elements' nextEvent'.
            sendRequest self' requestType' securities' flds' elements' nextEvent' =
              map_option (\<lambda>r. (r, submitted self' (buildRequest requestType' securities' flds' elements')))
                (poll requestType' nextEvent' 0 []))"
proof -
  have r: "ready self"
    using assms sendRequest_not_ready [of self requestType securities flds elements nextEvent]
    by (cases "ready self") auto
  with assms have s: "self' = submitted self (buildRequest requestType securities flds elements)"
    by (auto simp: sendRequest_ready)
  from r obtain s0 where s0: "session self = Some s0" "started s0"
    by (auto simp: ready_def split: option.splits)
  have r': "ready self'"
    using r s0 by (simp add: s ready_def submitted_def)
  show ?thesis
    using s0 r r' sendRequest_ready [OF r'] by (simp add: s submitted_def)
qed

text \<open>After a security error on an opened instance, the instance is still active and ready.\<close>

theorem request_error_keeps_connection_witness:
  "active (submitted opened (buildRequest ''HistoricalData'' (Str ''XX Equity'') (Str ''PX_LAST'') [])) \<and>
   ready (submitted opened (buildRequest ''HistoricalData'' (Str ''XX Equity'') (Str ''PX_LAST'') []))"
proof -
  let ?ev = "\<lambda>i::nat. \<lparr>eventType = RESPONSE,
            messages = [ESeq ''HistoricalDataResponse''
              [ESeq ''securityData''
                 [EValue ''security'' (PStr ''XX Equity''),
                  ESeq ''securityError'' [EValue ''message'' (PStr ''Unknown/Invalid security'')],
                  EArr ''fieldData'' []]]]\<rparr>"
  have "sendRequest opened ''HistoricalData'' (Str ''XX Equity'') (Str ''PX_LAST'') [] ?ev =
    Some (Inl (RequestError (ESeq ''securityError'' [EValue ''message'' (PStr ''Unknown/Invalid security'')])
                ''Security Error''),
          submitted opened (buildRequest ''HistoricalData'' (Str ''XX Equity'') (Str ''PX_LAST'') []))"
    using ready_opened
    by (simp add: sendRequest_ready poll.simps check_def nonempty_exceptions_def raise_with_def)
  from request_error_keeps_connection [OF this] have
    "active (submitted opened (buildRequest ''HistoricalData'' (Str ''XX Equity'') (Str ''PX_LAST'') [])) = active opened"
    and "ready (submitted opened (buildRequest ''HistoricalData'' (Str ''XX Equity'') (Str ''PX_LAST'') []))"
    by blast+
  moreover have "active opened"
    by (simp add: opened_def open_def init_def Let_def getService_def openService_def
      start_def newSession_def)
  ultimately show ?thesis by simp
qed

section \<open>Serialization of dates\<close>

lemma length_zfill [simp]: "length (zfill w n) = w"
  by (induction w arbitrary: n) auto

lemma digit_cases:
  "k < 10 \<Longrightarrow> k = 0 \<or> k = 1 \<or> k = 2 \<or> k = 3 \<or> k = 4 \<or> k = 5 \<or> k = 6 \<or> k = 7 \<or> k = 8 \<or> k = (9::nat)"
  by arith

lemma digit_val_digit [simp]: "digit_val (digit n) = n mod 10"
proof -
  have "n mod 10 < 10" by simp
  from digit_cases [OF this] show ?thesis
    by (elim disjE) (simp_all add: digit_def digit_val_def)
qed

lemma digit_is_digit [simp]: "is_digit (digit n)"
proof -
  have "n mod 10 < 10" by simp
  from digit_cases [OF this] show ?thesis
    by (elim disjE) (simp_all add: digit_def is_digit_def)
qed

lemma zfill_digits [simp]: "list_all is_digit (zfill w n)"
  by (induction w arbitrary: n) simp_all








lemma options_fold_append [simp]:
  "options (fold appendField xs r) = options r" "options (fold appendSecurity ys r) = options r"
  by (induction xs arbitrary: r, simp_all add: appendField_def)
     (induction ys arbitrary: r, simp_all add: appendSecurity_def)






section \<open>The table of a reference request\<close>

lemma reference_fields_cells:
  "reference_fields sec flds data =
     (case sequence (map (field_cell sec) flds) of
        Inl e \<Rightarrow> Inl e
      | Inr cs \<Rightarrow> Inr (fold set_cell cs data))"
  by (induction flds arbitrary: data)
     (auto simp: field_cell_def set_cell_def split: sum.splits)

lemma reference_securities_cells:
  "reference_securities secs data =
     (case sequence (map security_cells secs) of
        Inl e \<Rightarrow> Inl e
      | Inr cs \<Rightarrow> Inr (fold set_cell (concat cs) data))"
  by (induction secs arbitrary: data)
     (auto simp: security_cells_def reference_fields_cells split: sum.splits)

lemma reference_messages_cells:
  "reference_messages response data =
     (case response_cells response of
        Inl e \<Rightarrow> Inl e
      | Inr cs \<Rightarrow> Inr (fold set_cell cs data))"
  unfolding response_cells_def
  by (induction response arbitrary: data)
     (auto simp: message_cells_def reference_securities_cells split: sum.splits)

lemma index_ix_set: "index (ix_set r c v df) = append_new r (index df)"
  by (simp add: ix_set_def Let_def append_new_def)

lemma columns_ix_set: "columns (ix_set r c v df) = append_new c (columns df)"
  by (simp add: ix_set_def Let_def append_new_def)

lemma names_ix_set:
  "index_names (ix_set r c v df) = index_names df"
  "columns_names (ix_set r c v df) = columns_names df"
  by (simp_all add: ix_set_def Let_def)






lemma fold_set_cell_axes:
  "index (fold set_cell cs df) = fold append_new (map fst cs) (index df)"
  "columns (fold set_cell cs df) = fold append_new (map (\<lambda>c. fst (snd c)) cs) (columns df)"
  "index_names (fold set_cell cs df) = index_names df"
  "columns_names (fold set_cell cs df) = columns_names df"
  by (induction cs arbitrary: df)
     (simp_all add: set_cell_def index_ix_set columns_ix_set names_ix_set)



lemma set_fold_append_new: "set (fold append_new xs ys) = set xs \<union> set ys"
  by (induction xs arbitrary: ys) (auto simp: append_new_def)

lemma fold_append_new_Nil: "fold append_new xs ys = [] \<longleftrightarrow> xs = [] \<and> ys = []"
proof -
  have "fold append_new xs ys = [] \<longleftrightarrow> set (fold append_new xs ys) = {}"
    by (simp only: set_empty)
  then show ?thesis
    by (simp add: set_fold_append_new)
qed

lemma distinct_fold_append_new: "distinct ys \<Longrightarrow> distinct (fold append_new xs ys)"
  by (induction xs arbitrary: ys) (auto simp: append_new_def)

lemma set_labels [simp]: "set (labels xs) = set xs"
  by (simp add: labels_def set_fold_append_new)

lemma distinct_labels [simp]: "distinct (labels xs)"
  by (simp add: labels_def distinct_fold_append_new)

lemma labels_Nil [simp]: "labels xs = [] \<longleftrightarrow> xs = []"
  by (simp add: labels_def fold_append_new_Nil)

lemma sequence_map_Inr: "sequence (map Inr xs) = Inr xs"
  by (induction xs) simp_all

lemma sequence_Inr_nth:
  assumes "\<And>i. i < length es \<Longrightarrow> f i = Inr (es ! i)"
  shows "sequence (map f [0..<length es]) = Inr es"
proof -
  have "map f [0..<length es] = map (\<lambda>i. Inr (es ! i)) [0..<length es]"
    using assms by (intro map_cong) simp_all
  also have "\<dots> = map Inr (map (nth es) [0..<length es])"
    by simp
  also have "\<dots> = map Inr es"
    by (simp only: map_nth)
  finally show ?thesis
    by (simp only: sequence_map_Inr)
qed

lemma valuesAsElements_EArr [simp]: "valuesAsElements (EArr n es) = Inr es"
  unfolding valuesAsElements_def by (simp, rule sequence_Inr_nth) simp

lemma valuesAsElements_ESeq [simp]: "valuesAsElements (ESeq n es) = Inr [ESeq n es]"
  by (simp add: valuesAsElements_def)

lemma elementsOf_ESeq [simp]: "elementsOf (ESeq n es) = Inr es"
  unfolding elementsOf_def by (simp, rule sequence_Inr_nth) simp

lemma elementsOf_other [simp]: "elementsOf (EArr n es) = Inr []" "elementsOf (EValue n v) = Inr []"
  by (simp_all add: elementsOf_def)

lemma first_pos_Cons: "first_pos x (y # ys) = (if y = x then 0 else Suc (first_pos x ys))"
  by (simp add: first_pos_def)

lemma first_pos_hd: "xs \<noteq> [] \<Longrightarrow> first_pos x xs = 0 \<longleftrightarrow> hd xs = x"
  by (cases xs) (simp_all add: first_pos_Cons)



lemma hd_append_new: "xs \<noteq> [] \<Longrightarrow> hd (append_new x xs) = hd xs"
  by (simp add: append_new_def)

lemma append_new_not_Nil [simp]: "append_new x xs \<noteq> []"
  by (auto simp: append_new_def)




lemma referenceRequest_cells:
  assumes "sendRequest self ''ReferenceData'' securities flds kwargs nextEvent =
             Some (Inr response, self')"
    and "response_cells response = Inr cells"
  shows "referenceRequest self securities flds kwargs nextEvent =
     Some (Inr (if cells = [] then Table DataFrame_new
                else if is_str securities \<and> is_str flds
                then Scalar (rows (fold set_cell cells DataFrame_new) ! 0 ! 0)
                else Table ((fold set_cell cells DataFrame_new)
                       \<lparr>index_names := [Some ''Security''], columns_names := [Some ''Field'']\<rparr>)),
           self')"
proof -
  let ?data = "fold set_cell cells DataFrame_new"
  have d: "reference_messages response DataFrame_new = Inr ?data"
    by (simp add: reference_messages_cells assms(2))
  have e: "df_empty ?data \<longleftrightarrow> cells = []"
    by (auto simp: df_empty_def fold_set_cell_axes fold_append_new_Nil DataFrame_new_def)
  show ?thesis
  proof (cases "cells = []")
    case True
    then show ?thesis
      using e by (simp add: referenceRequest_def assms(1) d)
  next
    case False
    then have "index ?data \<noteq> []" "columns ?data \<noteq> []"
      using e by (simp_all add: df_empty_def)
    then have "iloc (?data\<lparr>index_names := [Some ''Security''], columns_names := [Some ''Field'']\<rparr>) 0 0 =
        Inr (rows ?data ! 0 ! 0)"
      by (simp add: iloc_def)
    with False e show ?thesis
      by (simp add: referenceRequest_def assms(1) d Let_def)
  qed
qed



lemma check_unknown_field: "check (unknown_field_response security field errorInfo) = Inr ()"
  by (simp add: check_def unknown_field_response_def nonempty_exceptions_def)

lemma cells_unknown_field:
  "response_cells [unknown_field_response security field errorInfo] = Inr []"
  by (simp add: response_cells_def message_cells_def security_cells_def
      unknown_field_response_def)

lemma polled_quiet:
  assumes "\<forall>k<n. messages (ev k) = []"
  shows "polled ev n = []"
  using assms by (simp add: polled_def)

text \<open>
  C2. A reference request for one identifier and one field that the service does not know
  for it: the events before the final one carry no message, the final event carries the
  answer that lists the field under \<^verbatim>\<open>fieldExceptions\<close> of the security's entry. No error
  is raised, and the result is the empty table.
\<close>

theorem invalid_field_is_silent:
  assumes "ready self"
    and "\<forall>k<n. eventType (nextEvent k) \<noteq> RESPONSE \<and> messages (nextEvent k) = []"
    and "eventType (nextEvent n) = RESPONSE"
    and "messages (nextEvent n) = [unknown_field_response security field errorInfo]"
  shows "referenceRequest self (Str security) (Str field) kwargs nextEvent =
           Some (Inr (Table DataFrame_new),
                 submitted self (buildRequest ''ReferenceData'' (Str security) (Str field) kwargs))"
proof -
  let ?msg = "unknown_field_response security field errorInfo"
  have p: "polled nextEvent (Suc n) = [?msg]"
    using assms(2,4) by (simp add: polled_Suc polled_quiet)
  have ex: "expected ''ReferenceData'' ?msg"
    by (simp add: expected_def unknown_field_response_def)
  have "poll ''ReferenceData'' nextEvent 0 [] = Some (Inr [?msg])"
    unfolding poll_Inr_iff
    using assms(2,3)
    by (intro exI [of _ n]) (simp add: p check_unknown_field ex)
  then have "sendRequest self ''ReferenceData'' (Str security) (Str field) kwargs nextEvent =
      Some (Inr [?msg],
            submitted self (buildRequest ''ReferenceData'' (Str security) (Str field) kwargs))"
    using assms(1) by (simp add: sendRequest_ready)
  from referenceRequest_cells [OF this cells_unknown_field] show ?thesis
    by simp
qed

text \<open>Two timeouts, then the answer for a field that does not exist.\<close>

theorem invalid_field_is_silent_witness:
  "referenceRequest opened (Str ''IBM US Equity'') (Str ''NOT_A_FIELD'') []
     (\<lambda>i. if i < 2 then \<lparr>eventType = TIMEOUT, messages = []\<rparr>
           else \<lparr>eventType = RESPONSE,
                 messages = [unknown_field_response ''IBM US Equity'' ''NOT_A_FIELD''
                    [EValue ''category'' (PStr ''BAD_FLD''),
                     EValue ''subcategory'' (PStr ''INVALID_FIELD'')]]\<rparr>) =
   Some (Inr (Table DataFrame_new),
         submitted opened
           (buildRequest ''ReferenceData'' (Str ''IBM US Equity'') (Str ''NOT_A_FIELD'') []))"
  using invalid_field_is_silent [of opened 2 _ "''IBM US Equity''" "''NOT_A_FIELD''"
      "[EValue ''category'' (PStr ''BAD_FLD''), EValue ''subcategory'' (PStr ''INVALID_FIELD'')]" "[]"]
    ready_opened
  by simp

section \<open>The options of a history request\<close>












section \<open>The fragments of a history request\<close>

lemma history_values_cells:
  "history_values fld vs df =
     (case sequence (map (value_cell fld) vs) of
        Inl e \<Rightarrow> Inl e
      | Inr cs \<Rightarrow> Inr (fold set_cell cs df))"
  by (induction vs arbitrary: df)
     (auto simp: value_cell_def set_cell_def split: sum.splits)

lemma history_fields_cells:
  "history_fields flds df =
     (case sequence (map row_cells flds) of
        Inl e \<Rightarrow> Inl e
      | Inr cs \<Rightarrow> Inr (fold set_cell (concat cs) df))"
  by (induction flds arbitrary: df)
     (auto simp: row_cells_def history_values_cells split: sum.splits)

lemma history_messages_Cons:
  "history_messages (msg # response) keys data =
     (case history_cells msg of
        Inl e \<Rightarrow> Inl e
      | Inr cells \<Rightarrow>
          (case history_key msg of
             Inl e \<Rightarrow> Inl e
           | Inr key \<Rightarrow> history_messages response (keys @ [key]) (data @ [fragment_of cells])))"
  by (auto simp: history_cells_def history_key_def fragment_of_def history_fields_cells
      split: sum.splits)

lemma history_messages_fragments:
  assumes "history_messages response keys0 data0 = Inr (keys, data)"
  shows "\<exists>ks fs. keys = keys0 @ ks \<and> data = data0 @ fs \<and>
           length ks = length response \<and> length fs = length response \<and>
           (\<forall>i<length response.
              \<exists>cells. history_cells (response ! i) = Inr cells \<and>
                      history_key (response ! i) = Inr (ks ! i) \<and>
                      fs ! i = fragment_of cells)"
  using assms
proof (induction response arbitrary: keys0 data0)
  case Nil
  then show ?case by simp
next
  case (Cons msg response)
  from Cons.prems obtain cells key where
    c: "history_cells msg = Inr cells" and k: "history_key msg = Inr key"
    and r: "history_messages response (keys0 @ [key]) (data0 @ [fragment_of cells]) = Inr (keys, data)"
    by (auto simp: history_messages_Cons simp del: history_messages.simps split: sum.splits)
  from Cons.IH [OF r] obtain ks fs where
    ih: "keys = (keys0 @ [key]) @ ks" "data = (data0 @ [fragment_of cells]) @ fs"
      "length ks = length response" "length fs = length response"
      "\<forall>i<length response.
         \<exists>cells. history_cells (response ! i) = Inr cells \<and>
                 history_key (response ! i) = Inr (ks ! i) \<and>
                 fs ! i = fragment_of cells"
    by blast
  have "\<forall>i<length (msg # response).
          \<exists>cs. history_cells ((msg # response) ! i) = Inr cs \<and>
               history_key ((msg # response) ! i) = Inr ((key # ks) ! i) \<and>
               (fragment_of cells # fs) ! i = fragment_of cs"
  proof (intro allI impI)
    fix i
    assume "i < length (msg # response)"
    then show "\<exists>cs. history_cells ((msg # response) ! i) = Inr cs \<and>
               history_key ((msg # response) ! i) = Inr ((key # ks) ! i) \<and>
               (fragment_of cells # fs) ! i = fragment_of cs"
      using c k ih(5) by (cases i) auto
  qed
  with ih show ?case
    by (intro exI [of _ "key # ks"] exI [of _ "fragment_of cells # fs"]) simp
qed

lemma fragment_of_axes:
  "index (fragment_of cells) = map (\<lambda>d. (d, 0, 0, 0)) (labels (map fst cells))"
  "columns (fragment_of cells) = labels (map (\<lambda>c. fst (snd c)) cells)"
  by (simp_all add: fragment_of_def replace_def to_datetime_def fold_set_cell_axes labels_def
      DataFrame_new_def)

lemma distinct_fragment_index: "distinct (index (fragment_of cells))"
  by (simp add: fragment_of_axes distinct_map inj_on_def)

lemma sorted_fold_append_new:
  "sorted (acc @ xs) \<Longrightarrow> sorted (fold append_new xs acc)"
proof (induction xs arbitrary: acc)
  case Nil
  then show ?case by simp
next
  case (Cons x xs)
  show ?case
  proof (cases "x \<in> set acc")
    case True
    from Cons.prems have "sorted (acc @ xs)"
      by (auto simp: sorted_append)
    from Cons.IH [OF this] True show ?thesis
      by (simp add: append_new_def)
  next
    case False
    from Cons.prems have "sorted ((acc @ [x]) @ xs)" by simp
    from Cons.IH [OF this] False show ?thesis
      by (simp add: append_new_def)
  qed
qed

lemma strict_sorted_labels: "sorted xs \<Longrightarrow> sorted_wrt (<) (labels xs)"
  using sorted_fold_append_new [of "[]" xs] distinct_labels [of xs]
  by (simp add: strict_sorted_iff labels_def)

lemma chronological_fragment:
  assumes "sorted (map fst cells)"
  shows "sorted_wrt (<) (index (fragment_of cells))"
proof -
  have "sorted_wrt (<) (labels (map fst cells))"
    using assms by (rule strict_sorted_labels)
  then have "sorted_wrt (\<lambda>d d'. (d, 0::nat, 0::nat, 0::nat) < (d', 0, 0, 0)) (labels (map fst cells))"
    by (rule sorted_wrt_mono_rel [rotated]) simp
  then show ?thesis
    by (simp add: fragment_of_axes sorted_wrt_map)
qed

lemma strict_sorted_union:
  assumes "xss \<noteq> []" "\<forall>xs\<in>set xss. sorted_wrt (<) xs"
  shows "sorted_wrt (<) (union_sorted xss)"
proof (cases "\<forall>xs\<in>set xss. xs = hd xss")
  case True
  with assms show ?thesis
    by (simp add: union_sorted_def)
next
  case False
  then have "union_sorted xss = sort (remdups (concat xss))"
    by (simp only: union_sorted_def if_False)
  then show ?thesis
    by (simp add: strict_sorted_iff)
qed

lemma concat_axis1_distinct:
  assumes "\<forall>df\<in>set data. distinct (index df)"
  shows "\<exists>df. concat_axis1 join data = Inr df \<and> index df = join (map index data) \<and>
           columns df = concat (map columns data)"
  using assms by (auto simp: concat_axis1_def Let_def)

lemma concat_axis1_keys_distinct:
  assumes "\<forall>df\<in>set data. distinct (index df)"
  shows "\<exists>df. concat_axis1_keys join keys names data = Inr df \<and>
           index df = join (map index data) \<and>
           columns df = concat (map (\<lambda>(k, f). map (Pair k) (columns f)) (zip keys data)) \<and>
           columns_names df = names"
  using assms by (auto simp: concat_axis1_keys_def Let_def)

text \<open>
  C4, as amended. \<^verbatim>\<open>sendRequest\<close> has returned a response and the fragments could be
  built. There is one fragment per message, keyed by the security of the message; its row
  labels are the dates of the message's values, each once, in the order in which the
  message first lists them, as timestamps; so a fragment has no duplicate date, and it is
  strictly chronological when the message lists its values in chronological order.
  Without fragments the empty table is returned. Otherwise, if \<^verbatim>\<open>securities\<close> was a string
  the result has a flat column axis, the columns of the fragments one after the other,
  named Field; if it was a collection the column axis has two levels, each column paired
  with the security of its fragment, named Security and Field. In both cases the row
  index is the union of the dates of the fragments, named Date, and it is strictly
  chronological when every fragment is.
\<close>

theorem historicalRequest_shape:
  assumes "sendRequest self ''HistoricalData'' securities flds
             (history_options startDate endDate kwargs) nextEvent = Some (Inr response, self')"
    and "history_messages response [] [] = Inr (keys, data)"
  shows "length keys = length response \<and> length data = length response \<and>
    (\<forall>i<length response.
       \<exists>cells. history_cells (response ! i) = Inr cells \<and>
               history_key (response ! i) = Inr (keys ! i) \<and>
               index (data ! i) = map (\<lambda>d. (d, 0, 0, 0)) (labels (map fst cells)) \<and>
               columns (data ! i) = labels (map (\<lambda>c. fst (snd c)) cells) \<and>
               distinct (index (data ! i)) \<and>
               (sorted (map fst cells) \<longrightarrow> sorted_wrt (<) (index (data ! i)))) \<and>
    (data = [] \<longrightarrow>
       historicalRequest self securities flds startDate endDate kwargs nextEvent =
         Some (Inr (Flat DataFrame_new), self')) \<and>
    (data \<noteq> [] \<and> is_str securities \<longrightarrow>
       (\<exists>df. historicalRequest self securities flds startDate endDate kwargs nextEvent =
               Some (Inr (Flat df), self') \<and>
             columns df = concat (map columns data) \<and>
             columns_names df = [Some ''Field''] \<and>
             index df = union_sorted (map index data) \<and>
             index_names df = [Some ''Date''])) \<and>
    (data \<noteq> [] \<and> \<not> is_str securities \<longrightarrow>
       (\<exists>df. historicalRequest self securities flds startDate endDate kwargs nextEvent =
               Some (Inr (Hier df), self') \<and>
             columns df = concat (map (\<lambda>(k, f). map (Pair k) (columns f)) (zip keys data)) \<and>
             columns_names df = [Some ''Security'', Some ''Field''] \<and>
             index df = union_sorted (map index data) \<and>
             index_names df = [Some ''Date''])) \<and>
    (data \<noteq> [] \<and> (\<forall>f\<in>set data. sorted_wrt (<) (index f)) \<longrightarrow>
       sorted_wrt (<) (union_sorted (map index data)))"
proof -
  from history_messages_fragments [OF assms(2)] have
    len: "length keys = length response" "length data = length response"
    and fr: "\<forall>i<length response.
              \<exists>cells. history_cells (response ! i) = Inr cells \<and>
                      history_key (response ! i) = Inr (keys ! i) \<and>
                      data ! i = fragment_of cells"
    by auto
  have 1: "\<forall>i<length response.
       \<exists>cells. history_cells (response ! i) = Inr cells \<and>
               history_key (response ! i) = Inr (keys ! i) \<and>
               index (data ! i) = map (\<lambda>d. (d, 0, 0, 0)) (labels (map fst cells)) \<and>
               columns (data ! i) = labels (map (\<lambda>c. fst (snd c)) cells) \<and>
               distinct (index (data ! i)) \<and>
               (sorted (map fst cells) \<longrightarrow> sorted_wrt (<) (index (data ! i)))"
  proof (intro allI impI)
    fix i
    assume "i < length response"
    with fr obtain cells where c: "history_cells (response ! i) = Inr cells"
      "history_key (response ! i) = Inr (keys ! i)" "data ! i = fragment_of cells"
      by blast
    show "\<exists>cells. history_cells (response ! i) = Inr cells \<and>
               history_key (response ! i) = Inr (keys ! i) \<and>
               index (data ! i) = map (\<lambda>d. (d, 0, 0, 0)) (labels (map fst cells)) \<and>
               columns (data ! i) = labels (map (\<lambda>c. fst (snd c)) cells) \<and>
               distinct (index (data ! i)) \<and>
               (sorted (map fst cells) \<longrightarrow> sorted_wrt (<) (index (data ! i)))"
      using c fragment_of_axes [of cells] distinct_fragment_index [of cells]
        chronological_fragment [of cells]
      by (intro exI [of _ cells]) simp
  qed
  have d: "\<forall>df\<in>set data. distinct (index df)"
  proof
    fix df
    assume "df \<in> set data"
    then obtain i where "i < length data" "df = data ! i"
      by (auto simp: in_set_conv_nth)
    with 1 len show "distinct (index df)" by auto
  qed
  have 2: "data = [] \<longrightarrow>
       historicalRequest self securities flds startDate endDate kwargs nextEvent =
         Some (Inr (Flat DataFrame_new), self')"
    by (simp add: historicalRequest_def assms)
  have 3: "data \<noteq> [] \<and> is_str securities \<longrightarrow>
       (\<exists>df. historicalRequest self securities flds startDate endDate kwargs nextEvent =
               Some (Inr (Flat df), self') \<and>
             columns df = concat (map columns data) \<and>
             columns_names df = [Some ''Field''] \<and>
             index df = union_sorted (map index data) \<and>
             index_names df = [Some ''Date''])"
    using concat_axis1_distinct [OF d, of union_sorted]
    by (auto simp: historicalRequest_def assms)
  have 4: "data \<noteq> [] \<and> \<not> is_str securities \<longrightarrow>
       (\<exists>df. historicalRequest self securities flds startDate endDate kwargs nextEvent =
               Some (Inr (Hier df), self') \<and>
             columns df = concat (map (\<lambda>(k, f). map (Pair k) (columns f)) (zip keys data)) \<and>
             columns_names df = [Some ''Security'', Some ''Field''] \<and>
             index df = union_sorted (map index data) \<and>
             index_names df = [Some ''Date''])"
    using concat_axis1_keys_distinct [OF d, of union_sorted keys "[Some ''Security'', Some ''Field'']"]
    by (auto simp: historicalRequest_def assms)
  have 5: "data \<noteq> [] \<and> (\<forall>f\<in>set data. sorted_wrt (<) (index f)) \<longrightarrow>
       sorted_wrt (<) (union_sorted (map index data))"
    using strict_sorted_union [of "map index data"] by auto
  from len 1 2 3 4 5 show ?thesis by blast
qed

text \<open>One security asked for as a one-element list: the columns are (security, field) pairs.\<close>

theorem historicalRequest_shape_witness:
  "\<exists>df. historicalRequest opened (Lst [''NA CN Equity'']) (Lst [''PX_LAST''])
          (Sc (PStr ''20141231'')) (Sc (PStr ''20150131'')) []
          (\<lambda>i. \<lparr>eventType = RESPONSE,
                 messages = [ESeq ''HistoricalDataResponse''
                   [ESeq ''securityData''
                      [EValue ''security'' (PStr ''NA CN Equity''),
                       EArr ''fieldData''
                         [ESeq ''fieldData''
                            [EValue ''date'' (PDate (2014, 12, 31)), EValue ''PX_LAST'' (PInt 48)],
                          ESeq ''fieldData''
                            [EValue ''date'' (PDate (2015, 2, 2)), EValue ''PX_LAST'' (PInt 49)]]]]]\<rparr>) =
          Some (Inr (Hier df),
                submitted opened
                  (buildRequest ''HistoricalData'' (Lst [''NA CN Equity'']) (Lst [''PX_LAST''])
                     (history_options (Sc (PStr ''20141231'')) (Sc (PStr ''20150131'')) []))) \<and>
        columns df = [(''NA CN Equity'', ''PX_LAST'')] \<and>
        columns_names df = [Some ''Security'', Some ''Field''] \<and>
        index df = [((2014, 12, 31), 0, 0, 0), ((2015, 2, 2), 0, 0, 0)] \<and>
        index_names df = [Some ''Date'']"
proof -
  let ?msg = "ESeq ''HistoricalDataResponse''
                   [ESeq ''securityData''
                      [EValue ''security'' (PStr ''NA CN Equity''),
                       EArr ''fieldData''
                         [ESeq ''fieldData''
                            [EValue ''date'' (PDate (2014, 12, 31)), EValue ''PX_LAST'' (PInt 48)],
                          ESeq ''fieldData''
                            [EValue ''date'' (PDate (2015, 2, 2)), EValue ''PX_LAST'' (PInt 49)]]]]"
  let ?frag = "\<lparr>index = [((2014, 12, 31), 0, 0, 0), ((2015, 2, 2), 0, 0, 0)],
                columns = [''PX_LAST''], rows = [[Sc (PInt 48)], [Sc (PInt 49)]],
                index_names = [None], columns_names = [None]\<rparr> :: (datetime, string) DataFrame"
  have s: "sendRequest opened ''HistoricalData'' (Lst [''NA CN Equity'']) (Lst [''PX_LAST''])
       (history_options (Sc (PStr ''20141231'')) (Sc (PStr ''20150131'')) [])
       (\<lambda>i. \<lparr>eventType = RESPONSE, messages = [?msg]\<rparr>) =
     Some (Inr [?msg], submitted opened
             (buildRequest ''HistoricalData'' (Lst [''NA CN Equity'']) (Lst [''PX_LAST''])
                (history_options (Sc (PStr ''20141231'')) (Sc (PStr ''20150131'')) [])))"
    using ready_opened
    by (simp add: sendRequest_ready poll.simps check_def nonempty_exceptions_def)
  have h: "history_messages [?msg] [] [] = Inr ([''NA CN Equity''], [?frag])"
    by code_simp
  have u: "union_sorted [[((2014, 12, 31), 0, 0, 0), ((2015, 2, 2), 0, 0, 0)]] =
      [((2014::nat, 12::nat, 31::nat), 0::nat, 0::nat, 0::nat), ((2015, 2, 2), 0, 0, 0)]"
    by (simp add: union_sorted_def)
  from historicalRequest_shape [OF s h] show ?thesis
    by (simp add: u)
qed

text \<open>
  C4 as stated fails: nothing sorts the rows. A message that lists 2 January 2015 before
  31 December 2014 gives a result whose row index stands in that order.
\<close>

theorem historicalRequest_chronological_counterexample:
  "historicalRequest opened (Str ''BMO CN Equity'') (Str ''PX_LAST'')
     (Sc (PStr ''20141231'')) (Sc (PStr ''20150131'')) []
     (\<lambda>i. \<lparr>eventType = RESPONSE,
            messages = [ESeq ''HistoricalDataResponse''
              [ESeq ''securityData''
                 [EValue ''security'' (PStr ''BMO CN Equity''),
                  EArr ''fieldData''
                    [ESeq ''fieldData''
                       [EValue ''date'' (PDate (2015, 1, 2)), EValue ''PX_LAST'' (PInt 81)],
                     ESeq ''fieldData''
                       [EValue ''date'' (PDate (2014, 12, 31)), EValue ''PX_LAST'' (PInt 80)]]]]]\<rparr>) =
   Some (Inr (Flat \<lparr>index = [((2015, 1, 2), 0, 0, 0), ((2014, 12, 31), 0, 0, 0)],
                    columns = [''PX_LAST''],
                    rows = [[Sc (PInt 81)], [Sc (PInt 80)]],
                    index_names = [Some ''Date''], columns_names = [Some ''Field'']\<rparr>),
         submitted opened
           (buildRequest ''HistoricalData'' (Str ''BMO CN Equity'') (Str ''PX_LAST'')
              (history_options (Sc (PStr ''20141231'')) (Sc (PStr ''20150131'')) []))) \<and>
   \<not> sorted_wrt (<) [((2015::nat, 1::nat, 2::nat), 0::nat, 0::nat, 0::nat), ((2014, 12, 31), 0, 0, 0)]"
proof -
  have "\<not> sorted_wrt (<) [((2015::nat, 1::nat, 2::nat), 0::nat, 0::nat, 0::nat), ((2014, 12, 31), 0, 0, 0)]"
    by simp
  moreover have "historicalRequest opened (Str ''BMO CN Equity'') (Str ''PX_LAST'')
     (Sc (PStr ''20141231'')) (Sc (PStr ''20150131'')) []
     (\<lambda>i. \<lparr>eventType = RESPONSE,
            messages = [ESeq ''HistoricalDataResponse''
              [ESeq ''securityData''
                 [EValue ''security'' (PStr ''BMO CN Equity''),
                  EArr ''fieldData''
                    [ESeq ''fieldData''
                       [EValue ''date'' (PDate (2015, 1, 2)), EValue ''PX_LAST'' (PInt 81)],
                     ESeq ''fieldData''
                       [EValue ''date'' (PDate (2014, 12, 31)), EValue ''PX_LAST'' (PInt 80)]]]]]\<rparr>) =
   Some (Inr (Flat \<lparr>index = [((2015, 1, 2), 0, 0, 0), ((2014, 12, 31), 0, 0, 0)],
                    columns = [''PX_LAST''],
                    rows = [[Sc (PInt 81)], [Sc (PInt 80)]],
                    index_names = [Some ''Date''], columns_names = [Some ''Field'']\<rparr>),
         submitted opened
           (buildRequest ''HistoricalData'' (Str ''BMO CN Equity'') (Str ''PX_LAST'')
              (history_options (Sc (PStr ''20141231'')) (Sc (PStr ''20150131'')) [])))"
    by code_simp
  ultimately show ?thesis by simp
qed


section \<open>The fragments of a bulk request\<close>

lemma sequence_append:
  "sequence (xs @ ys) =
     (case sequence xs of
        Inl e \<Rightarrow> Inl e
      | Inr us \<Rightarrow> (case sequence ys of Inl e \<Rightarrow> Inl e | Inr vs \<Rightarrow> Inr (us @ vs)))"
  by (induction xs) (auto split: sum.splits)

lemma sequence_Inr_all2:
  "sequence xs = Inr ys \<Longrightarrow> list_all2 (\<lambda>x y. x = Inr y) xs ys"
  by (induction xs arbitrary: ys) (auto split: sum.splits)

lemma bulk_rows_records:
  "bulk_rows vs df =
     (case sequence (map bulk_record vs) of
        Inl e \<Rightarrow> Inl e
      | Inr rs \<Rightarrow> Inr (fold append_row rs df))"
  by (induction vs arbitrary: df) (auto simp: bulk_record_def split: sum.splits)

lemma bulk_fields_records:
  "bulk_fields flds df =
     (case sequence (map field_records flds) of
        Inl e \<Rightarrow> Inl e
      | Inr rss \<Rightarrow> Inr (fold append_row (concat rss) df))"
  by (induction flds arbitrary: df)
     (auto simp: field_records_def bulk_rows_records split: sum.splits)

lemma not_empty_columns: "\<not> df_empty df \<Longrightarrow> columns df = hd (columns df) # tl (columns df)"
  by (simp add: df_empty_def)

lemma bulk_securities_Cons:
  "bulk_securities (sec # secs) keys data =
     (case bulk_fragment sec of
        Inl e \<Rightarrow> Inl e
      | Inr None \<Rightarrow> bulk_securities secs keys data
      | Inr (Some kf) \<Rightarrow> bulk_securities secs (keys @ [fst kf]) (data @ [snd kf]))"
proof (cases "security_records sec")
  case (Inl e)
  then show ?thesis
    by (auto simp: bulk_fragment_def security_records_def bulk_fields_records split: sum.splits)
next
  case (Inr records)
  then have f: "getElement sec ''fieldData'' = Inl e \<Longrightarrow> False" for e
    by (auto simp: security_records_def)
  show ?thesis
  proof (cases "df_empty (frame_of records)")
    case True
    with Inr show ?thesis
      by (auto simp: bulk_fragment_def security_records_def bulk_fields_records frame_of_def
          split: sum.splits)
  next
    case False
    from not_empty_columns [OF this] obtain c cs where
      c: "columns (frame_of records) = c # cs" "hd (columns (frame_of records)) = c"
      by (metis list.sel(1))
    with Inr False show ?thesis
      by (auto simp: bulk_fragment_def security_records_def bulk_fields_records frame_of_def
          split: sum.splits)
  qed
qed

lemma bulk_securities_fragments:
  "sequence (map bulk_fragment secs) = Inr fs \<Longrightarrow>
     bulk_securities secs keys data =
       Inr (keys @ map fst (kept fs), data @ map snd (kept fs))"
proof (induction secs arbitrary: fs keys data)
  case Nil
  then show ?case by simp
next
  case (Cons sec secs)
  from Cons.prems obtain f fs' where
    f: "bulk_fragment sec = Inr f" "sequence (map bulk_fragment secs) = Inr fs'" "fs = f # fs'"
    by (auto split: sum.splits)
  show ?case
    by (cases f) (simp_all add: bulk_securities_Cons f Cons.IH [OF f(2)] del: bulk_securities.simps)
qed

lemma bulk_messages_fragments:
  assumes "response_entries response = Inr entries"
    and "sequence (map bulk_fragment entries) = Inr fs"
  shows "bulk_messages response keys data =
           Inr (keys @ map fst (kept fs), data @ map snd (kept fs))"
  using assms
proof (induction response arbitrary: entries fs keys data)
  case Nil
  then show ?case by (simp add: response_entries_def)
next
  case (Cons msg response)
  from Cons.prems(1) obtain es ess where
    e: "message_entries msg = Inr es" "sequence (map message_entries response) = Inr ess"
      "entries = es @ concat ess"
    by (auto simp: response_entries_def split: sum.splits)
  then have r: "response_entries response = Inr (concat ess)"
    by (simp add: response_entries_def)
  from Cons.prems(2) obtain fs1 fs2 where
    s: "sequence (map bulk_fragment es) = Inr fs1"
      "sequence (map bulk_fragment (concat ess)) = Inr fs2" "fs = fs1 @ fs2"
    by (auto simp: e(3) sequence_append split: sum.splits)
  have k: "kept (xs @ ys) = kept xs @ kept ys" for xs ys :: "'b option list"
    by (induction xs rule: kept.induct) simp_all
  from e(1) obtain sd where sd: "getElement msg ''securityData'' = Inr sd"
    "valuesAsElements sd = Inr es"
    by (auto simp: message_entries_def split: sum.splits)
  show ?case
    by (simp add: sd bulk_securities_fragments [OF s(1)] Cons.IH [OF r s(2)] s(3) k)
qed

lemma distinct_bulk_series:
  "bulk_series ds s = Inr s' \<Longrightarrow> distinct (map fst s) \<Longrightarrow> distinct (map fst s')"
  by (induction ds arbitrary: s) (auto simp: distinct_update split: sum.splits)

lemma distinct_bulk_record: "bulk_record v = Inr r \<Longrightarrow> distinct (map fst r)"
  using distinct_bulk_series [of _ "[]" r]
  by (auto simp: bulk_record_def split: sum.splits)

lemma sequence_Inr_set:
  assumes "sequence (map f xs) = Inr ys" "y \<in> set ys"
  shows "\<exists>x\<in>set xs. f x = Inr y"
  using assms by (induction xs arbitrary: ys) (auto split: sum.splits)

lemma distinct_field_records:
  "field_records fld = Inr rs \<Longrightarrow> r \<in> set rs \<Longrightarrow> distinct (map fst r)"
  using sequence_Inr_set [of bulk_record _ rs r] distinct_bulk_record
  by (auto simp: field_records_def split: sum.splits)

lemma distinct_security_records:
  assumes "security_records sec = Inr rs" "r \<in> set rs"
  shows "distinct (map fst r)"
proof -
  from assms(1) obtain flds rss where
    s: "sequence (map field_records flds) = Inr rss" "rs = concat rss"
    by (auto simp: security_records_def split: sum.splits)
  with assms(2) obtain rs' where "rs' \<in> set rss" "r \<in> set rs'" by auto
  with sequence_Inr_set [OF s(1)] obtain fld where "field_records fld = Inr rs'" by blast
  then show ?thesis using \<open>r \<in> set rs'\<close> by (rule distinct_field_records)
qed

lemma append_new_in: "x \<in> set xs \<Longrightarrow> append_new x xs = xs"
  by (simp add: append_new_def)

lemma append_new_notin: "x \<notin> set xs \<Longrightarrow> append_new x xs = xs @ [x]"
  by (simp add: append_new_def)

lemma fold_append_new_distinct:
  "distinct xs \<Longrightarrow> fold append_new xs acc = acc @ filter (\<lambda>k. k \<notin> set acc) xs"
proof (induction xs arbitrary: acc)
  case Nil
  then show ?case by simp
next
  case (Cons x xs)
  then have d: "distinct xs" and n: "x \<notin> set xs" by simp_all
  show ?case
  proof (cases "x \<in> set acc")
    case True
    then show ?thesis by (simp add: append_new_in Cons.IH [OF d])
  next
    case False
    have "filter (\<lambda>k. k \<noteq> x \<and> k \<notin> set acc) xs = filter (\<lambda>k. k \<notin> set acc) xs"
      using n by (intro filter_cong) auto
    with False show ?thesis by (simp add: append_new_notin Cons.IH [OF d])
  qed
qed

lemma columns_append_row:
  "distinct (map fst s) \<Longrightarrow> columns (append_row s df) = fold append_new (map fst s) (columns df)"
  by (simp add: append_row_def Let_def fold_append_new_distinct)

lemma index_append_row: "index (append_row s df) = [0..<Suc (length (index df))]"
  by (simp add: append_row_def Let_def)

lemma rows_append_row: "length (rows (append_row s df)) = Suc (length (rows df))"
  by (simp add: append_row_def Let_def)

lemma fold_append_row_columns:
  "\<forall>r\<in>set rs. distinct (map fst r) \<Longrightarrow>
     columns (fold append_row rs df) = fold append_new (concat (map (map fst) rs)) (columns df)"
  by (induction rs arbitrary: df) (simp_all add: columns_append_row)

lemma fold_append_row_lengths:
  "length (index (fold append_row rs df)) = length (index df) + length rs"
  "length (rows (fold append_row rs df)) = length (rows df) + length rs"
  by (induction rs arbitrary: df) (simp_all add: index_append_row rows_append_row)

lemma frame_of_facts:
  assumes "\<forall>r\<in>set rs. distinct (map fst r)"
  shows "columns (frame_of rs) = labels (concat (map (map fst) rs))"
    and "length (index (frame_of rs)) = length rs"
    and "length (rows (frame_of rs)) = length rs"
    and "df_empty (frame_of rs) \<longleftrightarrow> concat (map (map fst) rs) = []"
proof -
  show c: "columns (frame_of rs) = labels (concat (map (map fst) rs))"
    using assms by (simp add: frame_of_def fold_append_row_columns labels_def DataFrame_new_def)
  show l: "length (index (frame_of rs)) = length rs"
    by (simp add: frame_of_def fold_append_row_lengths DataFrame_new_def)
  show "length (rows (frame_of rs)) = length rs"
    by (simp add: frame_of_def fold_append_row_lengths DataFrame_new_def)
  have "rs = [] \<Longrightarrow> concat (map (map fst) rs) = []" by simp
  moreover have "index (frame_of rs) = [] \<longleftrightarrow> rs = []"
    using l by (metis length_0_conv)
  ultimately show "df_empty (frame_of rs) \<longleftrightarrow> concat (map (map fst) rs) = []"
    unfolding df_empty_def c labels_Nil by blast
qed

lemma hd_fold_append_new: "acc \<noteq> [] \<Longrightarrow> hd (fold append_new xs acc) = hd acc"
  by (induction xs arbitrary: acc) (simp_all add: hd_append_new)

lemma hd_labels: "xs \<noteq> [] \<Longrightarrow> hd (labels xs) = hd xs"
  by (cases xs) (simp_all add: labels_def hd_fold_append_new append_new_notin)

lemma set_index_first:
  assumes "columns df \<noteq> []"
  shows "index (set_index (hd (columns df)) df) = map (\<lambda>row. row ! 0) (rows df)"
    and "columns (set_index (hd (columns df)) df) = tl (columns df)"
    and "index_names (set_index (hd (columns df)) df) = [Some (hd (columns df))]"
proof -
  have "first_pos (hd (columns df)) (columns df) = 0"
    using assms by (simp add: first_pos_hd)
  then show "index (set_index (hd (columns df)) df) = map (\<lambda>row. row ! 0) (rows df)"
    and "columns (set_index (hd (columns df)) df) = tl (columns df)"
    and "index_names (set_index (hd (columns df)) df) = [Some (hd (columns df))]"
    by (simp_all add: set_index_def Let_def drop_Suc)
qed

lemma set_union_stable:
  assumes "xss \<noteq> []"
  shows "set (union_stable xss) = \<Union> (set ` set xss)"
proof (cases "\<forall>xs\<in>set xss. xs = hd xss")
  case True
  have h: "hd xss \<in> set xss"
    using assms by (rule hd_in_set)
  have "\<Union> (set ` set xss) = set (hd xss)"
  proof (intro equalityI subsetI)
    fix x
    assume "x \<in> \<Union> (set ` set xss)"
    then obtain xs where "xs \<in> set xss" "x \<in> set xs" by blast
    with True show "x \<in> set (hd xss)" by metis
  next
    fix x
    assume "x \<in> set (hd xss)"
    with h show "x \<in> \<Union> (set ` set xss)" by blast
  qed
  moreover have "union_stable xss = hd xss"
    unfolding union_stable_def using True by (rule if_P)
  ultimately show ?thesis by (simp only:)
next
  case False
  then have "union_stable xss = fold append_new (concat xss) []"
    unfolding union_stable_def by (rule if_not_P)
  then show ?thesis
    by (simp add: set_fold_append_new)
qed

lemma concat_axis0_keys_distinct:
  assumes "\<forall>df\<in>set data. distinct (columns df)"
  shows "\<exists>df. concat_axis0_keys join keys names data = Inr df \<and>
           index df = concat (map (\<lambda>(k, f). map (Pair k) (index f)) (zip keys data)) \<and>
           columns df = join (map columns data) \<and>
           index_names df = names"
  using assms by (auto simp: concat_axis0_keys_def Let_def)

lemma concat_axis1_Inr:
  "concat_axis1 join data = Inr df \<Longrightarrow>
     index df = join (map index data) \<and> columns df = concat (map columns data)"
  by (auto simp: concat_axis1_def Let_def split: if_splits)

lemma bulk_fragment_facts:
  assumes "bulk_fragment sec = Inr fr"
  shows "\<exists>records. security_records sec = Inr records \<and>
           columns (frame_of records) = labels (concat (map (map fst) records)) \<and>
           (concat (map (map fst) records) = [] \<longrightarrow> fr = None) \<and>
           (concat (map (map fst) records) \<noteq> [] \<longrightarrow>
              (\<exists>key f. fr = Some (key, f) \<and>
                 getElementAsString sec ''security'' = Inr key \<and>
                 index f = map (\<lambda>row. row ! 0) (rows (frame_of records)) \<and>
                 length (index f) = length records \<and>
                 index_names f = [Some (hd (concat (map (map fst) records)))] \<and>
                 columns f = tl (labels (concat (map (map fst) records)))))"
proof -
  from assms obtain records where r: "security_records sec = Inr records"
    by (auto simp: bulk_fragment_def split: sum.splits)
  then have d: "\<forall>r\<in>set records. distinct (map fst r)"
    using distinct_security_records by blast
  note ff = frame_of_facts [OF d]
  let ?ks = "concat (map (map fst) records)"
  have 1: "?ks = [] \<longrightarrow> fr = None"
    using assms r ff(4) by (auto simp: bulk_fragment_def)
  have 2: "?ks \<noteq> [] \<longrightarrow>
              (\<exists>key f. fr = Some (key, f) \<and>
                 getElementAsString sec ''security'' = Inr key \<and>
                 index f = map (\<lambda>row. row ! 0) (rows (frame_of records)) \<and>
                 length (index f) = length records \<and>
                 index_names f = [Some (hd ?ks)] \<and>
                 columns f = tl (labels ?ks))"
  proof
    assume ne: "?ks \<noteq> []"
    then have c: "columns (frame_of records) \<noteq> []"
      by (simp add: ff(1))
    from ne ff(4) have "\<not> df_empty (frame_of records)" by simp
    with assms r obtain key where
      k: "getElementAsString sec ''security'' = Inr key"
        "fr = Some (key, set_index (hd (columns (frame_of records))) (frame_of records))"
      by (auto simp: bulk_fragment_def split: sum.splits)
    show "\<exists>key f. fr = Some (key, f) \<and>
                 getElementAsString sec ''security'' = Inr key \<and>
                 index f = map (\<lambda>row. row ! 0) (rows (frame_of records)) \<and>
                 length (index f) = length records \<and>
                 index_names f = [Some (hd ?ks)] \<and>
                 columns f = tl (labels ?ks)"
      using k set_index_first [OF c] ff(1,3) hd_labels [OF ne]
      by (intro exI [of _ key]
          exI [of _ "set_index (hd (columns (frame_of records))) (frame_of records)"]) simp
  qed
  from r ff(1) 1 2 show ?thesis by blast
qed

lemma distinct_fragment_columns:
  assumes "bulk_fragment sec = Inr (Some (key, f))"
  shows "distinct (columns f)"
  using bulk_fragment_facts [OF assms] by (auto simp: distinct_tl)

lemma kept_set: "x \<in> set (kept os) \<longleftrightarrow> Some x \<in> set os"
  by (induction os rule: kept.induct) auto

lemma zip_fst_snd: "zip (map fst xs) (map snd xs) = xs"
  by (induction xs) simp_all

text \<open>
  C5, as amended. \<^verbatim>\<open>sendRequest\<close> has returned a response whose security entries and
  bulk rows can be read. One fragment is assembled per security entry, from the rows of
  all the bulk fields of that security, one row per bulk row: a security whose fields
  produced no row (or rows without any element) is skipped, and for any other the
  fragment is keyed by the security and indexed by the first column of the assembled
  table, which is the first element of the first bulk record and gives the index its
  name. Without fragments the empty table is returned. Otherwise, if \<^verbatim>\<open>securities\<close> was a
  string the fragments are placed side by side, their columns one after the other on the
  union of their row labels (or the library's error is raised, when it cannot align
  repeated labels); if it was a collection the fragments are stacked, every row label
  paired with the security of its fragment, under the names Security and the name of the
  first fragment's index, on the union of their columns.
\<close>

theorem bulkRequest_shape:
  assumes "sendRequest self ''ReferenceData'' securities flds kwargs nextEvent =
             Some (Inr response, self')"
    and "response_entries response = Inr entries"
    and "sequence (map bulk_fragment entries) = Inr fragments"
  shows "bulk_messages response [] [] = Inr (map fst (kept fragments), map snd (kept fragments)) \<and>
    length fragments = length entries \<and>
    (\<forall>i<length entries.
       \<exists>records. security_records (entries ! i) = Inr records \<and>
         columns (frame_of records) = labels (concat (map (map fst) records)) \<and>
         (concat (map (map fst) records) = [] \<longrightarrow> fragments ! i = None) \<and>
         (concat (map (map fst) records) \<noteq> [] \<longrightarrow>
            (\<exists>key f. fragments ! i = Some (key, f) \<and>
               getElementAsString (entries ! i) ''security'' = Inr key \<and>
               index f = map (\<lambda>row. row ! 0) (rows (frame_of records)) \<and>
               length (index f) = length records \<and>
               index_names f = [Some (hd (concat (map (map fst) records)))] \<and>
               columns f = tl (labels (concat (map (map fst) records)))))) \<and>
    (kept fragments = [] \<longrightarrow>
       bulkRequest self securities flds kwargs nextEvent =
         Some (Inr (Wide DataFrame_new), self')) \<and>
    (kept fragments \<noteq> [] \<and> is_str securities \<longrightarrow>
       (\<forall>e. concat_axis1 union_stable (map snd (kept fragments)) = Inl e \<longrightarrow>
          bulkRequest self securities flds kwargs nextEvent = Some (Inl e, self')) \<and>
       (\<forall>df. concat_axis1 union_stable (map snd (kept fragments)) = Inr df \<longrightarrow>
          bulkRequest self securities flds kwargs nextEvent =
            Some (Inr (Wide (df\<lparr>columns_names := [Some ''Field'']\<rparr>)), self') \<and>
          columns df = concat (map (\<lambda>kf. columns (snd kf)) (kept fragments)) \<and>
          index df = union_stable (map (\<lambda>kf. index (snd kf)) (kept fragments)))) \<and>
    (kept fragments \<noteq> [] \<and> \<not> is_str securities \<longrightarrow>
       (\<exists>df. bulkRequest self securities flds kwargs nextEvent =
               Some (Inr (Stacked df), self') \<and>
             index df = concat (map (\<lambda>(k, f). map (Pair k) (index f)) (kept fragments)) \<and>
             index_names df = Some ''Security'' # index_names (snd (hd (kept fragments))) \<and>
             set (columns df) = (\<Union>kf\<in>set (kept fragments). set (columns (snd kf)))))"
proof -
  let ?keys = "map fst (kept fragments)"
  let ?data = "map snd (kept fragments)"
  have bm: "bulk_messages response [] [] = Inr (?keys, ?data)"
    using bulk_messages_fragments [OF assms(2,3), of "[]" "[]"] by simp
  have a2: "list_all2 (\<lambda>x y. x = Inr y) (map bulk_fragment entries) fragments"
    using assms(3) by (rule sequence_Inr_all2)
  then have len: "length fragments = length entries"
    by (auto dest: list_all2_lengthD)
  have fr: "bulk_fragment (entries ! i) = Inr (fragments ! i)" if "i < length entries" for i
    using a2 that len by (auto simp: list_all2_conv_all_nth)
  have 1: "\<forall>i<length entries.
       \<exists>records. security_records (entries ! i) = Inr records \<and>
         columns (frame_of records) = labels (concat (map (map fst) records)) \<and>
         (concat (map (map fst) records) = [] \<longrightarrow> fragments ! i = None) \<and>
         (concat (map (map fst) records) \<noteq> [] \<longrightarrow>
            (\<exists>key f. fragments ! i = Some (key, f) \<and>
               getElementAsString (entries ! i) ''security'' = Inr key \<and>
               index f = map (\<lambda>row. row ! 0) (rows (frame_of records)) \<and>
               length (index f) = length records \<and>
               index_names f = [Some (hd (concat (map (map fst) records)))] \<and>
               columns f = tl (labels (concat (map (map fst) records)))))"
    using fr bulk_fragment_facts by blast
  have d: "\<forall>df\<in>set ?data. distinct (columns df)"
  proof
    fix df
    assume "df \<in> set ?data"
    then obtain key where "Some (key, df) \<in> set fragments"
      by (auto simp: kept_set)
    then obtain i where "i < length fragments" "fragments ! i = Some (key, df)"
      by (auto simp: in_set_conv_nth)
    with fr len have "bulk_fragment (entries ! i) = Inr (Some (key, df))" by simp
    then show "distinct (columns df)" by (rule distinct_fragment_columns)
  qed
  have e: "?data = [] \<longleftrightarrow> kept fragments = []" by simp
  have 2: "kept fragments = [] \<longrightarrow>
       bulkRequest self securities flds kwargs nextEvent =
         Some (Inr (Wide DataFrame_new), self')"
    by (simp add: bulkRequest_def assms(1) bm)
  have 3: "kept fragments \<noteq> [] \<and> is_str securities \<longrightarrow>
       (\<forall>e. concat_axis1 union_stable ?data = Inl e \<longrightarrow>
          bulkRequest self securities flds kwargs nextEvent = Some (Inl e, self')) \<and>
       (\<forall>df. concat_axis1 union_stable ?data = Inr df \<longrightarrow>
          bulkRequest self securities flds kwargs nextEvent =
            Some (Inr (Wide (df\<lparr>columns_names := [Some ''Field'']\<rparr>)), self') \<and>
          columns df = concat (map (\<lambda>kf. columns (snd kf)) (kept fragments)) \<and>
          index df = union_stable (map (\<lambda>kf. index (snd kf)) (kept fragments)))"
  proof (intro impI conjI allI)
    fix e
    assume "kept fragments \<noteq> [] \<and> is_str securities"
      and "concat_axis1 union_stable ?data = Inl e"
    then show "bulkRequest self securities flds kwargs nextEvent = Some (Inl e, self')"
      by (simp add: bulkRequest_def assms(1) bm)
  next
    fix df
    assume a: "kept fragments \<noteq> [] \<and> is_str securities"
      and c: "concat_axis1 union_stable ?data = Inr df"
    from a c show "bulkRequest self securities flds kwargs nextEvent =
            Some (Inr (Wide (df\<lparr>columns_names := [Some ''Field'']\<rparr>)), self')"
      by (simp add: bulkRequest_def assms(1) bm)
    from concat_axis1_Inr [OF c]
    show "columns df = concat (map (\<lambda>kf. columns (snd kf)) (kept fragments))"
      and "index df = union_stable (map (\<lambda>kf. index (snd kf)) (kept fragments))"
      by (simp_all add: comp_def)
  qed
  have 4: "kept fragments \<noteq> [] \<and> \<not> is_str securities \<longrightarrow>
       (\<exists>df. bulkRequest self securities flds kwargs nextEvent =
               Some (Inr (Stacked df), self') \<and>
             index df = concat (map (\<lambda>(k, f). map (Pair k) (index f)) (kept fragments)) \<and>
             index_names df = Some ''Security'' # index_names (snd (hd (kept fragments))) \<and>
             set (columns df) = (\<Union>kf\<in>set (kept fragments). set (columns (snd kf))))"
  proof
    assume a: "kept fragments \<noteq> [] \<and> \<not> is_str securities"
    from concat_axis0_keys_distinct [OF d, of union_stable ?keys
        "Some ''Security'' # index_names (hd ?data)"]
    obtain df where df: "concat_axis0_keys union_stable ?keys
          (Some ''Security'' # index_names (hd ?data)) ?data = Inr df"
      "index df = concat (map (\<lambda>(k, f). map (Pair k) (index f)) (zip ?keys ?data))"
      "columns df = union_stable (map columns ?data)"
      "index_names df = Some ''Security'' # index_names (hd ?data)"
      by blast
    have s: "set (columns df) = (\<Union>kf\<in>set (kept fragments). set (columns (snd kf)))"
      using a by (simp add: df(3) set_union_stable)
    have h: "hd ?data = snd (hd (kept fragments))"
      using a by (simp add: hd_map)
    have "bulkRequest self securities flds kwargs nextEvent = Some (Inr (Stacked df), self')"
      using a df(1) by (simp add: bulkRequest_def assms(1) bm)
    with df(2,4) s h show "\<exists>df. bulkRequest self securities flds kwargs nextEvent =
               Some (Inr (Stacked df), self') \<and>
             index df = concat (map (\<lambda>(k, f). map (Pair k) (index f)) (kept fragments)) \<and>
             index_names df = Some ''Security'' # index_names (snd (hd (kept fragments))) \<and>
             set (columns df) = (\<Union>kf\<in>set (kept fragments). set (columns (snd kf)))"
      by (intro exI [of _ df]) (simp add: zip_fst_snd)
  qed
  from bm len 1 2 3 4 show ?thesis by blast
qed

text \<open>
  Three securities, the second without rows: two fragments, stacked under (Security,
  Segment).
\<close>

theorem bulkRequest_shape_witness:
  "\<exists>df. bulkRequest opened (Lst [''CP CN Equity'', ''XX CN Equity'', ''CNR CN Equity''])
          (Str ''PG_REVENUE'') []
          (\<lambda>i. \<lparr>eventType = RESPONSE,
                 messages = [ESeq ''ReferenceDataResponse''
                   [EArr ''securityData''
                      [ESeq ''securityData''
                         [EValue ''security'' (PStr ''CP CN Equity''),
                          ESeq ''fieldData''
                            [EArr ''PG_REVENUE''
                               [ESeq ''PG_REVENUE''
                                  [EValue ''Segment'' (PStr ''Freight''),
                                   EValue ''Revenue'' (PInt 6)],
                                ESeq ''PG_REVENUE''
                                  [EValue ''Segment'' (PStr ''Other''),
                                   EValue ''Revenue'' (PInt 2)]]]],
                       ESeq ''securityData''
                         [EValue ''security'' (PStr ''XX CN Equity''),
                          ESeq ''fieldData'' [EArr ''PG_REVENUE'' []]],
                       ESeq ''securityData''
                         [EValue ''security'' (PStr ''CNR CN Equity''),
                          ESeq ''fieldData''
                            [EArr ''PG_REVENUE''
                               [ESeq ''PG_REVENUE''
                                  [EValue ''Segment'' (PStr ''Rail''),
                                   EValue ''Revenue'' (PInt 12)]]]]]]]\<rparr>) =
          Some (Inr (Stacked df),
                submitted opened
                  (buildRequest ''ReferenceData''
                     (Lst [''CP CN Equity'', ''XX CN Equity'', ''CNR CN Equity''])
                     (Str ''PG_REVENUE'') [])) \<and>
        index df = [(''CP CN Equity'', Sc (PStr ''Freight'')),
                    (''CP CN Equity'', Sc (PStr ''Other'')),
                    (''CNR CN Equity'', Sc (PStr ''Rail''))] \<and>
        index_names df = [Some ''Security'', Some ''Segment'']"
proof -
  let ?e1 = "ESeq ''securityData''
                         [EValue ''security'' (PStr ''CP CN Equity''),
                          ESeq ''fieldData''
                            [EArr ''PG_REVENUE''
                               [ESeq ''PG_REVENUE''
                                  [EValue ''Segment'' (PStr ''Freight''),
                                   EValue ''Revenue'' (PInt 6)],
                                ESeq ''PG_REVENUE''
                                  [EValue ''Segment'' (PStr ''Other''),
                                   EValue ''Revenue'' (PInt 2)]]]]"
  let ?e2 = "ESeq ''securityData''
                         [EValue ''security'' (PStr ''XX CN Equity''),
                          ESeq ''fieldData'' [EArr ''PG_REVENUE'' []]]"
  let ?e3 = "ESeq ''securityData''
                         [EValue ''security'' (PStr ''CNR CN Equity''),
                          ESeq ''fieldData''
                            [EArr ''PG_REVENUE''
                               [ESeq ''PG_REVENUE''
                                  [EValue ''Segment'' (PStr ''Rail''),
                                   EValue ''Revenue'' (PInt 12)]]]]"
  let ?msg = "ESeq ''ReferenceDataResponse'' [EArr ''securityData'' [?e1, ?e2, ?e3]]"
  let ?f1 = "\<lparr>index = [Sc (PStr ''Freight''), Sc (PStr ''Other'')], columns = [''Revenue''],
               rows = [[Sc (PInt 6)], [Sc (PInt 2)]],
               index_names = [Some ''Segment''], columns_names = [None]\<rparr>
             :: (pyobj, string) DataFrame"
  let ?f3 = "\<lparr>index = [Sc (PStr ''Rail'')], columns = [''Revenue''],
               rows = [[Sc (PInt 12)]],
               index_names = [Some ''Segment''], columns_names = [None]\<rparr>
             :: (pyobj, string) DataFrame"
  have s: "sendRequest opened ''ReferenceData''
       (Lst [''CP CN Equity'', ''XX CN Equity'', ''CNR CN Equity'']) (Str ''PG_REVENUE'') []
       (\<lambda>i. \<lparr>eventType = RESPONSE, messages = [?msg]\<rparr>) =
     Some (Inr [?msg], submitted opened
             (buildRequest ''ReferenceData''
                (Lst [''CP CN Equity'', ''XX CN Equity'', ''CNR CN Equity''])
                (Str ''PG_REVENUE'') []))"
    using ready_opened
    by (simp add: sendRequest_ready poll.simps check_def nonempty_exceptions_def)
  have e: "response_entries [?msg] = Inr [?e1, ?e2, ?e3]"
    by (simp add: response_entries_def message_entries_def)
  have f: "sequence (map bulk_fragment [?e1, ?e2, ?e3]) =
      Inr [Some (''CP CN Equity'', ?f1), None, Some (''CNR CN Equity'', ?f3)]"
    by code_simp
  let ?fs = "[Some (''CP CN Equity'', ?f1), None, Some (''CNR CN Equity'', ?f3)]"
  have k: "kept ?fs \<noteq> [] \<and> \<not> is_str (Lst [''CP CN Equity'', ''XX CN Equity'', ''CNR CN Equity''])"
    by simp
  from bulkRequest_shape [OF s e f] k obtain df where
    "bulkRequest opened (Lst [''CP CN Equity'', ''XX CN Equity'', ''CNR CN Equity''])
       (Str ''PG_REVENUE'') [] (\<lambda>i. \<lparr>eventType = RESPONSE, messages = [?msg]\<rparr>) =
     Some (Inr (Stacked df), submitted opened
             (buildRequest ''ReferenceData''
                (Lst [''CP CN Equity'', ''XX CN Equity'', ''CNR CN Equity''])
                (Str ''PG_REVENUE'') []))"
    "index df = concat (map (\<lambda>(k, f). map (Pair k) (index f)) (kept ?fs))"
    "index_names df = Some ''Security'' # index_names (snd (hd (kept ?fs)))"
    by blast
  then show ?thesis
    by (intro exI [of _ df]) simp
qed

text \<open>
  C5 as stated fails where it speaks of one fragment per security and field. One security
  with two bulk fields, each with one row for the same date, gives one fragment in which
  the rows of the two fields stand one under the other (the date twice in the index),
  not two fragments placed side by side.
\<close>

theorem bulkRequest_fields_counterexample:
  "bulk_messages
     [ESeq ''ReferenceDataResponse''
        [EArr ''securityData''
           [ESeq ''securityData''
              [EValue ''security'' (PStr ''CIG CN Equity''),
               ESeq ''fieldData''
                 [EArr ''DVD_HIST''
                    [ESeq ''DVD_HIST''
                       [EValue ''Date'' (PDate (2014, 12, 29)), EValue ''Amount'' (PInt 5)]],
                  EArr ''SPLIT_HIST''
                    [ESeq ''SPLIT_HIST''
                       [EValue ''Date'' (PDate (2014, 12, 29)), EValue ''Ratio'' (PInt 2)]]]]]]]
     [] [] =
   Inr ([''CIG CN Equity''],
        [\<lparr>index = [Sc (PDate (2014, 12, 29)), Sc (PDate (2014, 12, 29))],
          columns = [''Amount'', ''Ratio''],
          rows = [[Sc (PInt 5), Sc NaN], [Sc NaN, Sc (PInt 2)]],
          index_names = [Some ''Date''], columns_names = [None]\<rparr>]) \<and>
   bulkRequest opened (Str ''CIG CN Equity'') (Lst [''DVD_HIST'', ''SPLIT_HIST'']) []
     (\<lambda>i. \<lparr>eventType = RESPONSE,
            messages = [ESeq ''ReferenceDataResponse''
              [EArr ''securityData''
                 [ESeq ''securityData''
                    [EValue ''security'' (PStr ''CIG CN Equity''),
                     ESeq ''fieldData''
                       [EArr ''DVD_HIST''
                          [ESeq ''DVD_HIST''
                             [EValue ''Date'' (PDate (2014, 12, 29)), EValue ''Amount'' (PInt 5)]],
                        EArr ''SPLIT_HIST''
                          [ESeq ''SPLIT_HIST''
                             [EValue ''Date'' (PDate (2014, 12, 29)), EValue ''Ratio'' (PInt 2)]]]]]]]\<rparr>) =
   Some (Inr (Wide \<lparr>index = [Sc (PDate (2014, 12, 29)), Sc (PDate (2014, 12, 29))],
                    columns = [''Amount'', ''Ratio''],
                    rows = [[Sc (PInt 5), Sc NaN], [Sc NaN, Sc (PInt 2)]],
                    index_names = [Some ''Date''], columns_names = [Some ''Field'']\<rparr>),
         submitted opened
           (buildRequest ''ReferenceData'' (Str ''CIG CN Equity'')
              (Lst [''DVD_HIST'', ''SPLIT_HIST'']) []))"
  by code_simp

end
